theory Spec2Isabelle
  imports Complex_Main "HOL-Library.AList" "HOL-Library.Multiset" "HOL-Library.Word"
begin

section \<open>Landsat 8 NDVI notebook: archive URL resolver\<close>

text \<open>
  The notebook \<^verbatim>\<open>landsat8-cog-ndvi.ipynb\<close> is glue code around pandas, xarray and
  rasterio. Its own functions and cells are embedded here. The functions of Stage A and
  Stage B take the library calls they make (opening a raster, naming a variable,
  merging, concatenating) as parameters; models of the xarray operations, to put in
  their place, follow in a section of their own.

  Python exceptions are values of \<open>error\<close>; a function that may raise returns
  \<open>error + 'a\<close> with \<open>Inl\<close> for the exception.
\<close>

datatype error =
    IndexError
  | KeyError
  | ValueError
  | TypeError
  | AttributeError
  | MergeError
  | IOError

subsection \<open>Python string and list primitives\<close>

text \<open>
  \<^verbatim>\<open>s.split(sep)\<close> for a one-character separator: the fields between the occurrences
  of \<open>sep\<close>; a string without \<open>sep\<close> (also the empty string) is one field.
\<close>

fun py_split :: "char \<Rightarrow> string \<Rightarrow> string list" where
  "py_split sep [] = [[]]"
| "py_split sep (c # cs) =
     (if c = sep then [] # py_split sep cs
      else (case py_split sep cs of
              [] \<Rightarrow> [[c]]
            | f # fs \<Rightarrow> (c # f) # fs))"

text \<open>\<^verbatim>\<open>xs[i]\<close> for a literal index \<open>i \<ge> 0\<close>: IndexError out of range.\<close>

definition py_index :: "'a list \<Rightarrow> nat \<Rightarrow> error + 'a" where
  "py_index xs i = (if i < length xs then Inr (xs ! i) else Inl IndexError)"

text \<open>
  Slices never raise: \<^verbatim>\<open>s[1:3]\<close>, \<^verbatim>\<open>s[-2:]\<close> and \<^verbatim>\<open>xs[:-1]\<close> clip to the
  bounds of the sequence.
\<close>

definition slice_1_3 :: "'a list \<Rightarrow> 'a list" where
  "slice_1_3 s = take 2 (drop 1 s)"

definition slice_last2 :: "'a list \<Rightarrow> 'a list" where
  "slice_last2 s = drop (length s - 2) s"


subsection \<open>The data frame\<close>

text \<open>
  A pandas DataFrame as the ordered list of its named columns. Assigning
  \<^verbatim>\<open>df[name] = values\<close> replaces the column of that name in place, or appends a new
  one: \<open>AList.update\<close>.
\<close>

datatype 'd column = StrCol "string list" | DateCol "'d list"

type_synonym 'd dataframe = "(string \<times> 'd column) list"

text \<open>
  \<^verbatim>\<open>[pd.to_datetime(x.split('_')[3]) for x in pids]\<close>: the comprehension stops at the
  first identifier with fewer than four fields (IndexError) or whose fourth field
  \<^verbatim>\<open>pd.to_datetime\<close> rejects. The parser is a parameter.
\<close>

fun pid_dates :: "(string \<Rightarrow> error + 'd) \<Rightarrow> string list \<Rightarrow> error + 'd list" where
  "pid_dates to_datetime [] = Inr []"
| "pid_dates to_datetime (x # xs) =
     (case py_index (py_split CHR ''_'' x) 3 of
        Inl e \<Rightarrow> Inl e
      | Inr f \<Rightarrow>
          (case to_datetime f of
             Inl e \<Rightarrow> Inl e
           | Inr d \<Rightarrow>
               (case pid_dates to_datetime xs of
                  Inl e \<Rightarrow> Inl e
                | Inr ds \<Rightarrow> Inr (d # ds))))"

text \<open>\<^verbatim>\<open>f'{baseurl}/{x}/{x}_{band}.TIF'\<close>\<close>

definition band_url :: "string \<Rightarrow> string \<Rightarrow> string \<Rightarrow> string" where
  "band_url baseurl band x = baseurl @ ''/'' @ x @ ''/'' @ x @ ''_'' @ band @ ''.TIF''"

definition archive_prefix :: string where
  "archive_prefix = ''https://storage.googleapis.com/gcp-public-data-landsat/LC08/01/0''"

text \<open>
  \<^verbatim>\<open>
  def make_google_archive(pids, bands):
      path =  pids[0].split('_')[2][1:3]
      row =  pids[0].split('_')[2][-2:]
      baseurl = f'https://storage.googleapis.com/gcp-public-data-landsat/LC08/01/0{path}/0{row}'
      dates = [pd.to_datetime(x.split('_')[3]) for x in pids]
      df = pd.DataFrame(dict(product_id=pids, date=dates))
      for band in bands:
          df[band] = [f'{baseurl}/{x}/{x}_{band}.TIF' for x in pids]
      return df
  \<close>
\<close>

definition base_url :: "string \<Rightarrow> string" where
  "base_url field = archive_prefix @ slice_1_3 field @ ''/0'' @ slice_last2 field"

definition add_bands :: "string \<Rightarrow> string list \<Rightarrow> string list \<Rightarrow> 'd dataframe \<Rightarrow> 'd dataframe" where
  "add_bands baseurl pids bands df =
     fold (\<lambda>band df. AList.update band (StrCol (map (band_url baseurl band) pids)) df) bands df"

definition make_google_archive ::
  "(string \<Rightarrow> error + 'd) \<Rightarrow> string list \<Rightarrow> string list \<Rightarrow> error + 'd dataframe" where
  "make_google_archive to_datetime pids bands =
     (case py_index pids 0 of
        Inl e \<Rightarrow> Inl e
      | Inr pid0 \<Rightarrow>
          (case py_index (py_split CHR ''_'' pid0) 2 of
             Inl e \<Rightarrow> Inl e
           | Inr field \<Rightarrow>
               (case pid_dates to_datetime pids of
                  Inl e \<Rightarrow> Inl e
                | Inr dates \<Rightarrow>
                    Inr (add_bands (base_url field) pids bands
                           [(''product_id'', StrCol pids), (''date'', DateCol dates)]))))"


section \<open>Raster alignment and merge\<close>

subsection \<open>Rows of the data frame\<close>

datatype 'd cell = StrVal string | DateVal 'd

type_synonym 'd row = "(string \<times> 'd cell) list"

fun column_len :: "'d column \<Rightarrow> nat" where
  "column_len (StrCol xs) = length xs"
| "column_len (DateCol ds) = length ds"

fun column_at :: "'d column \<Rightarrow> nat \<Rightarrow> 'd cell" where
  "column_at (StrCol xs) i = StrVal (xs ! i)"
| "column_at (DateCol ds) i = DateVal (ds ! i)"

definition nrows :: "'d dataframe \<Rightarrow> nat" where
  "nrows df = (case df of [] \<Rightarrow> 0 | (name, col) # _ \<Rightarrow> column_len col)"

text \<open>Every column of a DataFrame has one entry per row.\<close>

definition wf_dataframe :: "'d dataframe \<Rightarrow> bool" where
  "wf_dataframe df = list_all (\<lambda>(name, col). column_len col = nrows df) df"

text \<open>\<^verbatim>\<open>df.iterrows()\<close>: the rows in order, each a mapping from column name to value.\<close>

definition iterrows :: "'d dataframe \<Rightarrow> 'd row list" where
  "iterrows df = map (\<lambda>i. map (\<lambda>(name, col). (name, column_at col i)) df) [0..<nrows df]"

text \<open>
  \<^verbatim>\<open>df.date.tolist()\<close>, handed to \<^verbatim>\<open>pd.DatetimeIndex\<close>: the date column as it stands,
  one entry per row of \<open>df\<close>.
\<close>

definition date_tolist :: "'d dataframe \<Rightarrow> error + 'd list" where
  "date_tolist df =
     (case map_of df ''date'' of
        None \<Rightarrow> Inl AttributeError
      | Some (DateCol ds) \<Rightarrow> Inr ds
      | Some (StrCol ss) \<Rightarrow> Inl ValueError)"

subsection \<open>Stage A: one acquisition, several bands\<close>

text \<open>
  \<^verbatim>\<open>
  def create_multiband_dataset(row, bands=['B4','B5'], chunks={'band': 1, 'x': 2048, 'y': 2048}):
      datasets = []
      for band in bands:
          url = row[band]
          da = xr.open_rasterio(url, chunks=chunks)
          da = da.squeeze().drop(labels='band')
          ds = da.to_dataset(name=band)
          datasets.append(ds)
      DS = xr.merge(datasets)
      return DS
  \<close>
  The library calls are parameters: \<open>open_rasterio\<close> (which depends on the network and
  may raise), \<open>to_dataset\<close> (squeeze, drop the band label, name the variable) and
  \<open>merge\<close>. The function itself compares nothing and raises nothing of its own apart
  from the lookup \<^verbatim>\<open>row[band]\<close>.
\<close>

fun open_bands ::
  "(string \<Rightarrow> error + 'da) \<Rightarrow> (string \<Rightarrow> 'da \<Rightarrow> 'ds) \<Rightarrow> 'd row \<Rightarrow> string list \<Rightarrow> error + 'ds list" where
  "open_bands open_rasterio to_dataset row [] = Inr []"
| "open_bands open_rasterio to_dataset row (band # bands) =
     (case map_of row band of
        None \<Rightarrow> Inl KeyError
      | Some (DateVal d) \<Rightarrow> Inl TypeError
      | Some (StrVal url) \<Rightarrow>
          (case open_rasterio url of
             Inl e \<Rightarrow> Inl e
           | Inr da \<Rightarrow>
               (case open_bands open_rasterio to_dataset row bands of
                  Inl e \<Rightarrow> Inl e
                | Inr datasets \<Rightarrow> Inr (to_dataset band da # datasets))))"

definition create_multiband_dataset ::
  "(string \<Rightarrow> error + 'da) \<Rightarrow> (string \<Rightarrow> 'da \<Rightarrow> 'ds) \<Rightarrow> ('ds list \<Rightarrow> error + 'ds)
     \<Rightarrow> 'd row \<Rightarrow> string list \<Rightarrow> error + 'ds" where
  "create_multiband_dataset open_rasterio to_dataset merge row bands =
     (case open_bands open_rasterio to_dataset row bands of
        Inl e \<Rightarrow> Inl e
      | Inr datasets \<Rightarrow> merge datasets)"

subsection \<open>Stage B: all acquisitions\<close>

text \<open>
  \<^verbatim>\<open>
  datasets = []
  for i,row in df.iterrows():
      try:
          print('loading...', row.date)
          ds = create_multiband_dataset(row)
          datasets.append(ds)
      except Exception as e:
          print('ERROR loading, skipping acquistion!')
          print(e)
  \<close>
  The loop returns the list of datasets that loaded and what it printed.
\<close>

datatype 'd printed = Loading "'d cell" | ErrorSkipping error

fun load_acquisitions ::
  "(string \<Rightarrow> error + 'da) \<Rightarrow> (string \<Rightarrow> 'da \<Rightarrow> 'ds) \<Rightarrow> ('ds list \<Rightarrow> error + 'ds)
     \<Rightarrow> 'd row list \<Rightarrow> 'ds list \<times> 'd printed list" where
  "load_acquisitions open_rasterio to_dataset merge [] = ([], [])"
| "load_acquisitions open_rasterio to_dataset merge (row # rows) =
     (let (datasets, out) = load_acquisitions open_rasterio to_dataset merge rows in
      case map_of row ''date'' of
        None \<Rightarrow> (datasets, ErrorSkipping AttributeError # out)
      | Some d \<Rightarrow>
          (case create_multiband_dataset open_rasterio to_dataset merge row [''B4'', ''B5''] of
             Inl e \<Rightarrow> (datasets, Loading d # ErrorSkipping e # out)
           | Inr ds \<Rightarrow> (ds # datasets, Loading d # out)))"

text \<open>
  \<^verbatim>\<open>DS = xr.concat(datasets, dim=pd.DatetimeIndex(df.date.tolist(), name='time'))\<close>

  \<open>concat_arguments\<close> is the pair of arguments the call receives: the datasets that
  loaded, and the dates of all rows of \<open>df\<close>.
\<close>

definition concat_arguments ::
  "(string \<Rightarrow> error + 'da) \<Rightarrow> (string \<Rightarrow> 'da \<Rightarrow> 'ds) \<Rightarrow> ('ds list \<Rightarrow> error + 'ds)
     \<Rightarrow> 'd dataframe \<Rightarrow> 'ds list \<times> (error + 'd list)" where
  "concat_arguments open_rasterio to_dataset merge df =
     (fst (load_acquisitions open_rasterio to_dataset merge (iterrows df)), date_tolist df)"

definition unify ::
  "(string \<Rightarrow> error + 'da) \<Rightarrow> (string \<Rightarrow> 'da \<Rightarrow> 'ds) \<Rightarrow> ('ds list \<Rightarrow> error + 'ds)
     \<Rightarrow> ('ds list \<Rightarrow> 'd list \<Rightarrow> error + 'u) \<Rightarrow> 'd dataframe \<Rightarrow> error + 'u" where
  "unify open_rasterio to_dataset merge xr_concat df =
     (case concat_arguments open_rasterio to_dataset merge df of
        (datasets, Inl e) \<Rightarrow> Inl e
      | (datasets, Inr dates) \<Rightarrow> xr_concat datasets dates)"

section \<open>The xarray operations the notebook calls\<close>

text \<open>
  The notebook's results are decided by three xarray calls: \<^verbatim>\<open>xr.merge\<close>,
  \<^verbatim>\<open>xr.concat\<close> and \<^verbatim>\<open>DataArray.sel\<close> with label slices. They are library
  code, not code of the notebook; this section models what they do with the default
  arguments the notebook leaves them: alignment is an outer join of the coordinate
  indexes, and cells that an object does not cover are filled with NaN, written \<open>None\<close>.
  The models are meant for the coordinate indexes of rasters, which are never empty and
  carry each label once.
\<close>

subsection \<open>Labelled arrays\<close>

text \<open>
  \<^verbatim>\<open>xr.open_rasterio(url).squeeze().drop(labels='band')\<close> for a single-band raster: a
  two-dimensional array with a \<open>y\<close> and an \<open>x\<close> coordinate; \<open>ras_values\<close> holds one
  list per \<open>y\<close> label.
\<close>

record ('c, 'v) raster =
  ras_y :: "'c list"
  ras_x :: "'c list"
  ras_values :: "'v list list"

text \<open>A Dataset over \<open>(y, x)\<close>: one acquisition, its bands by name.\<close>

record ('c, 'v) item_dataset =
  item_y :: "'c list"
  item_x :: "'c list"
  item_vars :: "(string \<times> 'v option list list) list"

text \<open>A Dataset over \<open>(time, y, x)\<close>: the unified dataset \<^verbatim>\<open>DS\<close>.\<close>

record ('t, 'c, 'e) dataset =
  time_coord :: "'t list"
  y_coord :: "'c list"
  x_coord :: "'c list"
  data_vars :: "(string \<times> 'e list list list) list"

text \<open>A DataArray over \<open>(time, y, x)\<close>: one variable with its coordinates.\<close>

record ('t, 'c, 'e) data_array =
  da_time :: "'t list"
  da_y :: "'c list"
  da_x :: "'c list"
  da_values :: "'e list list list"

text \<open>\<^verbatim>\<open>da.to_dataset(name=band)\<close>\<close>

definition to_dataset :: "string \<Rightarrow> ('c, 'v) raster \<Rightarrow> ('c, 'v) item_dataset" where
  "to_dataset band da =
     \<lparr>item_y = ras_y da, item_x = ras_x da,
      item_vars = [(band, map (map Some) (ras_values da))]\<rparr>"

subsection \<open>Alignment: outer join of the indexes\<close>

fun index_of :: "'a list \<Rightarrow> 'a \<Rightarrow> nat option" where
  "index_of [] a = None"
| "index_of (b # bs) a = (if a = b then Some 0 else map_option Suc (index_of bs a))"

text \<open>
  Indexes that are all equal are kept as they are; otherwise the joined index is the
  union of the labels, which pandas returns sorted ascending.
\<close>

definition outer_join :: "'c::linorder list list \<Rightarrow> 'c list" where
  "outer_join idxs =
     (case idxs of
        [] \<Rightarrow> []
      | i # rest \<Rightarrow> if list_all (\<lambda>j. j = i) rest then i else sort (remdups (concat idxs)))"

text \<open>
  An object whose index differs from the joined one is reindexed: a label it has keeps
  its values, a label it lacks gets the fill value. Reindexing needs unique labels
  (ValueError otherwise).
\<close>

definition reindex_list :: "'c list \<Rightarrow> 'c list \<Rightarrow> 'a \<Rightarrow> 'a list \<Rightarrow> 'a list" where
  "reindex_list old new fill vs =
     (if old = new then vs
      else map (\<lambda>l. case index_of old l of Some i \<Rightarrow> vs ! i | None \<Rightarrow> fill) new)"

definition reindex_item :: "'c list \<Rightarrow> 'c list \<Rightarrow> ('c, 'v) item_dataset \<Rightarrow> ('c, 'v) item_dataset" where
  "reindex_item ys xs ds =
     \<lparr>item_y = ys, item_x = xs,
      item_vars =
        map (\<lambda>(name, g).
               (name, reindex_list (item_y ds) ys (replicate (length xs) None)
                        (map (reindex_list (item_x ds) xs None) g)))
            (item_vars ds)\<rparr>"

definition can_reindex :: "'c list \<Rightarrow> 'c list \<Rightarrow> bool" where
  "can_reindex old new = (old = new \<or> distinct old)"

definition align :: "('c::linorder, 'v) item_dataset list \<Rightarrow> error + ('c, 'v) item_dataset list" where
  "align dss =
     (let ys = outer_join (map item_y dss);
          xs = outer_join (map item_x dss)
      in if list_all (\<lambda>ds. can_reindex (item_y ds) ys \<and> can_reindex (item_x ds) xs) dss
         then Inr (map (reindex_item ys xs) dss)
         else Inl ValueError)"

subsection \<open>\<^verbatim>\<open>xr.merge\<close>\<close>

text \<open>
  After alignment the variables of all objects are collected. Two variables of the same
  name must agree wherever both are not NaN (\<^verbatim>\<open>compat='no_conflicts'\<close>) and are then
  combined; otherwise MergeError.
\<close>

definition no_conflicts :: "'v option list list \<Rightarrow> 'v option list list \<Rightarrow> bool" where
  "no_conflicts g h = list_all2 (list_all2 (\<lambda>a b. a = None \<or> b = None \<or> a = b)) g h"

definition fillna :: "'v option list list \<Rightarrow> 'v option list list \<Rightarrow> 'v option list list" where
  "fillna g h = map2 (map2 (\<lambda>a b. case a of None \<Rightarrow> b | Some v \<Rightarrow> Some v)) g h"

fun merge_vars ::
  "(string \<times> 'v option list list) list \<Rightarrow> (string \<times> 'v option list list) list
     \<Rightarrow> error + (string \<times> 'v option list list) list" where
  "merge_vars acc [] = Inr acc"
| "merge_vars acc ((name, g) # rest) =
     (case map_of acc name of
        None \<Rightarrow> merge_vars (acc @ [(name, g)]) rest
      | Some h \<Rightarrow>
          if no_conflicts h g then merge_vars (AList.update name (fillna h g) acc) rest
          else Inl MergeError)"

definition xr_merge :: "('c::linorder, 'v) item_dataset list \<Rightarrow> error + ('c, 'v) item_dataset" where
  "xr_merge dss =
     (case align dss of
        Inl e \<Rightarrow> Inl e
      | Inr aligned \<Rightarrow>
          (case merge_vars [] (concat (map item_vars aligned)) of
             Inl e \<Rightarrow> Inl e
           | Inr vars \<Rightarrow>
               Inr \<lparr>item_y = outer_join (map item_y dss),
                    item_x = outer_join (map item_x dss),
                    item_vars = vars\<rparr>))"

subsection \<open>\<^verbatim>\<open>xr.concat\<close> along a new time dimension\<close>

text \<open>
  The objects are aligned on \<open>y\<close> and \<open>x\<close>, then every data variable of the first object
  is stacked over all objects, and the given index becomes the \<open>time\<close> coordinate, in the
  order given. An empty list of objects, a variable that the first object lacks, or an
  index whose length is not the number of objects is a ValueError; a variable that a
  later object lacks is a KeyError.
\<close>

fun stack_var :: "string \<Rightarrow> ('c, 'v) item_dataset list \<Rightarrow> error + 'v option list list list" where
  "stack_var name [] = Inr []"
| "stack_var name (ds # dss) =
     (case map_of (item_vars ds) name of
        None \<Rightarrow> Inl KeyError
      | Some g \<Rightarrow>
          (case stack_var name dss of
             Inl e \<Rightarrow> Inl e
           | Inr gs \<Rightarrow> Inr (g # gs)))"

fun stack_vars ::
  "string list \<Rightarrow> ('c, 'v) item_dataset list \<Rightarrow> error + (string \<times> 'v option list list list) list" where
  "stack_vars [] dss = Inr []"
| "stack_vars (name # names) dss =
     (case stack_var name dss of
        Inl e \<Rightarrow> Inl e
      | Inr cube \<Rightarrow>
          (case stack_vars names dss of
             Inl e \<Rightarrow> Inl e
           | Inr vars \<Rightarrow> Inr ((name, cube) # vars)))"

definition xr_concat ::
  "('c::linorder, 'v) item_dataset list \<Rightarrow> 't list \<Rightarrow> error + ('t, 'c, 'v option) dataset" where
  "xr_concat dss idx =
     (case dss of
        [] \<Rightarrow> Inl ValueError
      | ds0 # _ \<Rightarrow>
          (case align dss of
             Inl e \<Rightarrow> Inl e
           | Inr aligned \<Rightarrow>
               if \<not> list_all (\<lambda>ds. set (map fst (item_vars ds)) \<subseteq> set (map fst (item_vars ds0))) dss
               then Inl ValueError
               else (case stack_vars (map fst (item_vars ds0)) aligned of
                       Inl e \<Rightarrow> Inl e
                     | Inr vars \<Rightarrow>
                         if length idx \<noteq> length dss then Inl ValueError
                         else Inr \<lparr>time_coord = idx,
                                   y_coord = outer_join (map item_y dss),
                                   x_coord = outer_join (map item_x dss),
                                   data_vars = vars\<rparr>)))"

section \<open>Index computation\<close>

text \<open>
  \<^verbatim>\<open>NDVI = (DS['B5'] - DS['B4']) / (DS['B5'] + DS['B4'])\<close>

  The pixels of a Landsat band are 16-bit unsigned integers, and \<^verbatim>\<open>xr.open_rasterio\<close>
  keeps that dtype; nothing in the notebook casts it. A variable of the unified dataset
  is still a \<^verbatim>\<open>uint16\<close> array when alignment had nothing to fill in, and a float array
  as soon as one of its cells was filled with NaN. So a cell of an array is either an
  unsigned 16-bit word or a float.

  Floating-point arithmetic itself is not modelled: the float type \<open>'f\<close>, its sum,
  difference and quotient, the conversion of a 16-bit word and its NaN are parameters.
\<close>

datatype 'f pixel = UInt16 "16 word" | Float 'f

record 'f float_arith =
  fadd :: "'f \<Rightarrow> 'f \<Rightarrow> 'f"
  fsub :: "'f \<Rightarrow> 'f \<Rightarrow> 'f"
  fdiv :: "'f \<Rightarrow> 'f \<Rightarrow> 'f"
  of_uint16 :: "16 word \<Rightarrow> 'f"
  nan :: "'f"

text \<open>The dtype of a stacked variable, read off the cells \<^verbatim>\<open>xr.concat\<close> produced.\<close>

definition has_nan :: "'v option list list list \<Rightarrow> bool" where
  "has_nan v = list_ex (list_ex (list_ex (\<lambda>c. c = None))) v"

definition as_pixels :: "'f float_arith \<Rightarrow> 16 word option list list list \<Rightarrow> 'f pixel list list list" where
  "as_pixels fl v =
     (if has_nan v
      then map (map (map (\<lambda>c. case c of None \<Rightarrow> Float (nan fl)
                                       | Some w \<Rightarrow> Float (of_uint16 fl w)))) v
      else map (map (map (\<lambda>c. UInt16 (the c)))) v)"

text \<open>
  \<^verbatim>\<open>DS[name]\<close> is the variable with the coordinates of \<open>DS\<close> (KeyError when there is
  none).
\<close>

definition getitem ::
  "'f float_arith \<Rightarrow> ('t, 'c, 16 word option) dataset \<Rightarrow> string
     \<Rightarrow> error + ('t, 'c, 'f pixel) data_array" where
  "getitem fl DS name =
     (case map_of (data_vars DS) name of
        None \<Rightarrow> Inl KeyError
      | Some v \<Rightarrow>
          Inr \<lparr>da_time = time_coord DS, da_y = y_coord DS, da_x = x_coord DS,
               da_values = as_pixels fl v\<rparr>)"

text \<open>
  numpy's arithmetic on two cells. Sum and difference of two \<^verbatim>\<open>uint16\<close> cells stay
  in \<^verbatim>\<open>uint16\<close> and wrap around modulo \<open>2 ^ 16\<close>; with a float operand the other one
  is converted and the operation is the float one. True division always converts both
  operands and divides in floats.
\<close>

fun as_float :: "'f float_arith \<Rightarrow> 'f pixel \<Rightarrow> 'f" where
  "as_float fl (UInt16 w) = of_uint16 fl w"
| "as_float fl (Float x) = x"

fun np_subtract :: "'f float_arith \<Rightarrow> 'f pixel \<Rightarrow> 'f pixel \<Rightarrow> 'f pixel" where
  "np_subtract fl (UInt16 a) (UInt16 b) = UInt16 (a - b)"
| "np_subtract fl p q = Float (fsub fl (as_float fl p) (as_float fl q))"

fun np_add :: "'f float_arith \<Rightarrow> 'f pixel \<Rightarrow> 'f pixel \<Rightarrow> 'f pixel" where
  "np_add fl (UInt16 a) (UInt16 b) = UInt16 (a + b)"
| "np_add fl p q = Float (fadd fl (as_float fl p) (as_float fl q))"

definition np_true_divide :: "'f float_arith \<Rightarrow> 'f pixel \<Rightarrow> 'f pixel \<Rightarrow> 'f pixel" where
  "np_true_divide fl p q = Float (fdiv fl (as_float fl p) (as_float fl q))"

text \<open>
  Both operands of each operator are variables of the one Dataset and share its
  coordinates, so the arithmetic is elementwise.
\<close>

definition elementwise ::
  "('e \<Rightarrow> 'e \<Rightarrow> 'e) \<Rightarrow> ('t, 'c, 'e) data_array \<Rightarrow> ('t, 'c, 'e) data_array \<Rightarrow> ('t, 'c, 'e) data_array" where
  "elementwise f a b = a\<lparr>da_values := map2 (map2 (map2 f)) (da_values a) (da_values b)\<rparr>"

definition NDVI ::
  "'f float_arith \<Rightarrow> ('t, 'c, 16 word option) dataset \<Rightarrow> error + ('t, 'c, 'f pixel) data_array" where
  "NDVI fl DS =
     (case getitem fl DS ''B5'' of
        Inl e \<Rightarrow> Inl e
      | Inr b5 \<Rightarrow>
          (case getitem fl DS ''B4'' of
             Inl e \<Rightarrow> Inl e
           | Inr b4 \<Rightarrow>
               Inr (elementwise (np_true_divide fl)
                      (elementwise (np_subtract fl) b5 b4)
                      (elementwise (np_add fl) b5 b4))))"

text \<open>Every variable of a Dataset has the shape its coordinates give.\<close>

definition wf_cube :: "nat \<Rightarrow> nat \<Rightarrow> nat \<Rightarrow> 'e list list list \<Rightarrow> bool" where
  "wf_cube nt ny nx v =
     (length v = nt \<and> list_all (\<lambda>plane. length plane = ny \<and> list_all (\<lambda>r. length r = nx) plane) v)"

definition wf_dataset :: "('t, 'c, 'e) dataset \<Rightarrow> bool" where
  "wf_dataset DS =
     list_all (\<lambda>(name, v). wf_cube (length (time_coord DS)) (length (y_coord DS)) (length (x_coord DS)) v)
       (data_vars DS)"

definition wf_data_array :: "('t, 'c, 'e) data_array \<Rightarrow> bool" where
  "wf_data_array a = wf_cube (length (da_time a)) (length (da_y a)) (length (da_x a)) (da_values a)"

section \<open>Spatial selection\<close>

text \<open>
  A label slice on a coordinate index, as pandas resolves it: both bounds are
  inclusive. On an ascending index the labels from \<open>start\<close> to \<open>stop\<close> are kept; on a
  descending one the labels from \<open>start\<close> down to \<open>stop\<close>. On an index that is
  neither, both bounds must occur as labels, each in one contiguous run (KeyError
  otherwise). The result is the list of positions kept; it may be empty.
\<close>

definition label_run :: "'c list \<Rightarrow> 'c \<Rightarrow> (nat \<times> nat) option" where
  "label_run axis l =
     (case (index_of axis l, index_of (rev axis) l) of
        (Some i, Some j) \<Rightarrow>
          if list_all (\<lambda>c. c = l) (take (length axis - j - i) (drop i axis))
          then Some (i, length axis - j) else None
      | _ \<Rightarrow> None)"

definition slice_indexer :: "'c::linorder list \<Rightarrow> 'c \<Rightarrow> 'c \<Rightarrow> error + nat list" where
  "slice_indexer axis start stop =
     (if sorted axis then
        Inr (filter (\<lambda>i. start \<le> axis ! i \<and> axis ! i \<le> stop) [0..<length axis])
      else if sorted (rev axis) then
        Inr (filter (\<lambda>i. stop \<le> axis ! i \<and> axis ! i \<le> start) [0..<length axis])
      else (case (label_run axis start, label_run axis stop) of
              (Some (i, _), Some (_, j)) \<Rightarrow> Inr [i..<j]
            | _ \<Rightarrow> Inl KeyError))"

text \<open>\<^verbatim>\<open>a.sel(x=slice(x0, x1), y=slice(y0, y1))\<close>\<close>

definition sel :: "('t, 'c::linorder, 'e) data_array \<Rightarrow> 'c \<times> 'c \<Rightarrow> 'c \<times> 'c \<Rightarrow> error + ('t, 'c, 'e) data_array" where
  "sel a xslice yslice =
     (case slice_indexer (da_x a) (fst xslice) (snd xslice) of
        Inl e \<Rightarrow> Inl e
      | Inr px \<Rightarrow>
          (case slice_indexer (da_y a) (fst yslice) (snd yslice) of
             Inl e \<Rightarrow> Inl e
           | Inr py \<Rightarrow>
               Inr \<lparr>da_time = da_time a,
                    da_y = map (\<lambda>j. da_y a ! j) py,
                    da_x = map (\<lambda>i. da_x a ! i) px,
                    da_values =
                      map (\<lambda>plane. map (\<lambda>j. map (\<lambda>i. plane ! j ! i) px) py) (da_values a)\<rparr>))"

text \<open>
  \<^verbatim>\<open>
  if len(taps) == 0:
      taps = [(562370, 5312519)]
  xcen,ycen = taps[0]
  buf = 5000  # look at point +/- 5km
  ds = NDVI.sel(x=slice(xcen-buf,xcen+buf), y=slice(ycen-buf,ycen+buf))
  \<close>
\<close>

definition default_taps :: "('c::linordered_idom \<times> 'c) list \<Rightarrow> ('c \<times> 'c) list" where
  "default_taps taps = (if length taps = 0 then [(562370, 5312519)] else taps)"

definition buf :: "'c::linordered_idom" where
  "buf = 5000"

definition select_window ::
  "('t, 'c::linordered_idom, 'e) data_array \<Rightarrow> ('c \<times> 'c) list \<Rightarrow> error + ('t, 'c, 'e) data_array" where
  "select_window ndvi taps =
     (case py_index taps 0 of
        Inl e \<Rightarrow> Inl e
      | Inr (xcen, ycen) \<Rightarrow> sel ndvi (xcen - buf, xcen + buf) (ycen - buf, ycen + buf))"

section \<open>Notions used to state the properties\<close>

text \<open>
  The third field of a product identifier is \<open>PPPRRR\<close>: three decimal digits of the
  WRS path, three of the row. \<open>decimal\<close> reads a digit string as a number.
\<close>

definition is_digit :: "char \<Rightarrow> bool" where
  "is_digit c = (48 \<le> (of_char c :: nat) \<and> (of_char c :: nat) \<le> 57)"

definition decimal :: "string \<Rightarrow> nat" where
  "decimal s = foldl (\<lambda>n c. 10 * n + (of_char c - 48)) 0 s"

text \<open>
  A date parser for the compact form \<open>YYYYMMDD\<close> of the identifiers' fourth field, used
  in the examples: dates are numbered so that their order is the calendar's.
\<close>

definition compact_date :: "string \<Rightarrow> error + int" where
  "compact_date s =
     (if length s = 8 \<and> list_all is_digit s then Inr (int (decimal s)) else Inl ValueError)"

text \<open>Reordering the rows of a data frame: \<^verbatim>\<open>df.iloc[perm]\<close>.\<close>

fun take_column :: "nat list \<Rightarrow> 'd column \<Rightarrow> 'd column" where
  "take_column perm (StrCol xs) = StrCol (map (\<lambda>i. xs ! i) perm)"
| "take_column perm (DateCol ds) = DateCol (map (\<lambda>i. ds ! i) perm)"

definition take_rows :: "nat list \<Rightarrow> 'd dataframe \<Rightarrow> 'd dataframe" where
  "take_rows perm df = map (\<lambda>(name, col). (name, take_column perm col)) df"

text \<open>
  A well-formed per-item dataset: the labels of each axis are unique, and every variable
  has one row per \<open>y\<close> label and one entry per \<open>x\<close> label.
\<close>

definition wf_item :: "('c, 'v) item_dataset \<Rightarrow> bool" where
  "wf_item ds =
     (distinct (item_y ds) \<and> distinct (item_x ds)
      \<and> list_all (\<lambda>(name, g). length g = length (item_y ds)
                     \<and> list_all (\<lambda>r. length r = length (item_x ds)) g) (item_vars ds))"

subsection \<open>Example inputs\<close>

definition scene_147 :: "string list" where
  "scene_147 = [''LC08_L1TP_147027_20130421_20170310_01_T1'']"

definition catalog_titles :: "string list" where
  "catalog_titles =
     [''LC08_L1TP_047027_20130421_20170310_01_T1'',
      ''LC08_L1TP_047027_20130523_20170310_01_T1'',
      ''LC08_L1TP_047027_20130608_20170310_01_T1'',
      ''LC08_L1TP_047027_20130624_20170310_01_T1'']"

text \<open>What \<open>pipeline_archive compact_date catalog_titles\<close> returns.\<close>

definition archive_frame :: "int dataframe" where
  "archive_frame =
     [(''product_id'', StrCol [''LC08_L1TP_047027_20130421_20170310_01_T1'',
                               ''LC08_L1TP_047027_20130523_20170310_01_T1'',
                               ''LC08_L1TP_047027_20130608_20170310_01_T1'']),
      (''date'', DateCol [20130421, 20130523, 20130608]),
      (''B4'', StrCol [''https://storage.googleapis.com/gcp-public-data-landsat/LC08/01/047/027/LC08_L1TP_047027_20130421_20170310_01_T1/LC08_L1TP_047027_20130421_20170310_01_T1_B4.TIF'',
                       ''https://storage.googleapis.com/gcp-public-data-landsat/LC08/01/047/027/LC08_L1TP_047027_20130523_20170310_01_T1/LC08_L1TP_047027_20130523_20170310_01_T1_B4.TIF'',
                       ''https://storage.googleapis.com/gcp-public-data-landsat/LC08/01/047/027/LC08_L1TP_047027_20130608_20170310_01_T1/LC08_L1TP_047027_20130608_20170310_01_T1_B4.TIF'']),
      (''B5'', StrCol [''https://storage.googleapis.com/gcp-public-data-landsat/LC08/01/047/027/LC08_L1TP_047027_20130421_20170310_01_T1/LC08_L1TP_047027_20130421_20170310_01_T1_B5.TIF'',
                       ''https://storage.googleapis.com/gcp-public-data-landsat/LC08/01/047/027/LC08_L1TP_047027_20130523_20170310_01_T1/LC08_L1TP_047027_20130523_20170310_01_T1_B5.TIF'',
                       ''https://storage.googleapis.com/gcp-public-data-landsat/LC08/01/047/027/LC08_L1TP_047027_20130608_20170310_01_T1/LC08_L1TP_047027_20130608_20170310_01_T1_B5.TIF''])]"


text \<open>A small raster, and a loader for which one band of the second scene does not open.\<close>

definition scene_raster :: "(int, int) raster" where
  "scene_raster = \<lparr>ras_y = [2, 1], ras_x = [10, 20], ras_values = [[1, 2], [3, 4]]\<rparr>"

definition failing_open :: "string \<Rightarrow> error + (int, int) raster" where
  "failing_open url =
     (if url = ''https://storage.googleapis.com/gcp-public-data-landsat/LC08/01/047/027/LC08_L1TP_047027_20130523_20170310_01_T1/LC08_L1TP_047027_20130523_20170310_01_T1_B4.TIF''
      then Inl IOError else Inr scene_raster)"

text \<open>
  Two bands of digital numbers on one grid, a loader that returns them for every scene,
  and what Stage B returns on \<open>archive_frame\<close> with it: nothing is filled in, and the
  bands stay \<^verbatim>\<open>uint16\<close>.
\<close>

definition band4_raster :: "(int, 16 word) raster" where
  "band4_raster = \<lparr>ras_y = [2, 1], ras_x = [10, 20], ras_values = [[3, 2], [1, 4]]\<rparr>"

definition band5_raster :: "(int, 16 word) raster" where
  "band5_raster = \<lparr>ras_y = [2, 1], ras_x = [10, 20], ras_values = [[1, 5], [2, 6]]\<rparr>"

definition uint16_open :: "string \<Rightarrow> error + (int, 16 word) raster" where
  "uint16_open url =
     (if drop (length url - 6) url = ''B5.TIF'' then Inr band5_raster else Inr band4_raster)"

definition uint16_unified :: "(int, int, 16 word option) dataset" where
  "uint16_unified =
     \<lparr>time_coord = [20130421, 20130523, 20130608], y_coord = [2, 1], x_coord = [10, 20],
      data_vars =
        [(''B4'',
          [[[Some 3, Some 2], [Some 1, Some 4]],
           [[Some 3, Some 2], [Some 1, Some 4]],
           [[Some 3, Some 2], [Some 1, Some 4]]]),
         (''B5'',
          [[[Some 1, Some 5], [Some 2, Some 6]],
           [[Some 1, Some 5], [Some 2, Some 6]],
           [[Some 1, Some 5], [Some 2, Some 6]]])]\<rparr>"

text \<open>
  A raster shifted one column to the east, and a loader that returns it for band 5 of
  the first scene: the two bands of that acquisition then have different \<open>x\<close> axes.
\<close>

definition shifted_raster :: "(int, int) raster" where
  "shifted_raster = \<lparr>ras_y = [2, 1], ras_x = [20, 30], ras_values = [[5, 6], [7, 8]]\<rparr>"

definition misaligned_open :: "string \<Rightarrow> error + (int, int) raster" where
  "misaligned_open url =
     (if url = ''https://storage.googleapis.com/gcp-public-data-landsat/LC08/01/047/027/LC08_L1TP_047027_20130421_20170310_01_T1/LC08_L1TP_047027_20130421_20170310_01_T1_B5.TIF''
      then Inr shifted_raster else Inr scene_raster)"

text \<open>An index array of one time step on UTM coordinates around the default point.\<close>

definition small_ndvi :: "(int, int, rat) data_array" where
  "small_ndvi =
     \<lparr>da_time = [20130421], da_y = [5310000, 5312000], da_x = [560000, 562000, 569000],
      da_values = [[[1 / 2, 0, - (1 / 2)], [3 / 11, 3 / 13, 1 / 5]]]\<rparr>"

text \<open>
  What Stage B returns on \<open>archive_frame\<close> with the loader \<open>misaligned_open\<close>, and on
  the same rows in reverse order.
\<close>

definition unified_frame :: "(int, int, int option) dataset" where
  "unified_frame =
     \<lparr>time_coord = [20130421, 20130523, 20130608], y_coord = [2, 1], x_coord = [10, 20, 30],
      data_vars =
        [(''B4'',
          [[[Some 1, Some 2, None], [Some 3, Some 4, None]],
           [[Some 1, Some 2, None], [Some 3, Some 4, None]],
           [[Some 1, Some 2, None], [Some 3, Some 4, None]]]),
         (''B5'',
          [[[None, Some 5, Some 6], [None, Some 7, Some 8]],
           [[Some 1, Some 2, None], [Some 3, Some 4, None]],
           [[Some 1, Some 2, None], [Some 3, Some 4, None]]])]\<rparr>"

definition unified_reversed :: "(int, int, int option) dataset" where
  "unified_reversed =
     \<lparr>time_coord = [20130608, 20130523, 20130421], y_coord = [2, 1], x_coord = [10, 20, 30],
      data_vars =
        [(''B4'',
          [[[Some 1, Some 2, None], [Some 3, Some 4, None]],
           [[Some 1, Some 2, None], [Some 3, Some 4, None]],
           [[Some 1, Some 2, None], [Some 3, Some 4, None]]]),
         (''B5'',
          [[[Some 1, Some 2, None], [Some 3, Some 4, None]],
           [[Some 1, Some 2, None], [Some 3, Some 4, None]],
           [[None, Some 5, Some 6], [None, Some 7, Some 8]]])]\<rparr>"

section \<open>Properties of the URL resolver\<close>

lemma map_of_add_bands:
  "map_of (add_bands baseurl pids bands df) band =
     (if band \<in> set bands then Some (StrCol (map (band_url baseurl band) pids))
      else map_of df band)"
  unfolding add_bands_def
  by (induction bands arbitrary: df) (auto simp: update_conv')


lemma make_google_archive_Inr:
  assumes "make_google_archive to_datetime pids bands = Inr df"
  obtains pid0 rest field dates where
    "pids = pid0 # rest"
    "py_index (py_split CHR ''_'' pid0) 2 = Inr field"
    "pid_dates to_datetime pids = Inr dates"
    "df = add_bands (base_url field) pids bands
            [(''product_id'', StrCol pids), (''date'', DateCol dates)]"
  using assms
  by (cases pids) (auto simp: make_google_archive_def py_index_def split: sum.splits if_splits)

text \<open>
  C9. The base location is built from the second and third digit of the first
  identifier's path and the last two digits of its row, each behind a fixed \<open>0\<close>: every
  URI of every band column is
  \<open>.../LC08/01/0<p2><p3>/0<r2><r3>/<id>/<id>_<band>.TIF\<close>, whatever the leading digits
  \<open>p1\<close> and \<open>r1\<close> are. So when the path or the row that the first identifier encodes is
  100 or more, the path/row that the URIs address is not the encoded one.
\<close>

theorem make_google_archive_path_row:
  assumes ok: "make_google_archive to_datetime pids bands = Inr df"
    and first: "py_index pids 0 = Inr pid0"
    and f2: "py_index (py_split CHR ''_'' pid0) 2 = Inr [p1, p2, p3, r1, r2, r3]"
    and dig: "list_all is_digit [p1, p2, p3, r1, r2, r3]"
    and band: "band \<in> set bands"
  shows "map_of df band =
           Some (StrCol (map (\<lambda>x. ''https://storage.googleapis.com/gcp-public-data-landsat/LC08/01/''
                   @ [CHR ''0'', p2, p3] @ ''/'' @ [CHR ''0'', r2, r3]
                   @ ''/'' @ x @ ''/'' @ x @ ''_'' @ band @ ''.TIF'') pids))
         \<and> (100 \<le> decimal [p1, p2, p3] \<or> 100 \<le> decimal [r1, r2, r3] \<longrightarrow>
              (decimal [CHR ''0'', p2, p3], decimal [CHR ''0'', r2, r3])
                \<noteq> (decimal [p1, p2, p3], decimal [r1, r2, r3]))"
proof
  from ok obtain p rest field dates where
    pids: "pids = p # rest"
    and fld: "py_index (py_split CHR ''_'' p) 2 = Inr field"
    and df: "df = add_bands (base_url field) pids bands
            [(''product_id'', StrCol pids), (''date'', DateCol dates)]"
    by (rule make_google_archive_Inr)
  from first pids have "pid0 = p" by (simp add: py_index_def)
  with f2 fld have field: "field = [p1, p2, p3, r1, r2, r3]" by simp
  show "map_of df band =
           Some (StrCol (map (\<lambda>x. ''https://storage.googleapis.com/gcp-public-data-landsat/LC08/01/''
                   @ [CHR ''0'', p2, p3] @ ''/'' @ [CHR ''0'', r2, r3]
                   @ ''/'' @ x @ ''/'' @ x @ ''_'' @ band @ ''.TIF'') pids))"
    using band
    by (simp add: df map_of_add_bands field base_url_def band_url_def archive_prefix_def
        slice_1_3_def slice_last2_def)
next
  have d: "(of_char p2 :: nat) - 48 \<le> 9" "(of_char p3 :: nat) - 48 \<le> 9"
          "(of_char r2 :: nat) - 48 \<le> 9" "(of_char r3 :: nat) - 48 \<le> 9"
    using dig by (auto simp: is_digit_def)
  have lo: "decimal [CHR ''0'', p2, p3] < 100" "decimal [CHR ''0'', r2, r3] < 100"
    using d by (simp_all add: decimal_def)
  show "100 \<le> decimal [p1, p2, p3] \<or> 100 \<le> decimal [r1, r2, r3] \<longrightarrow>
              (decimal [CHR ''0'', p2, p3], decimal [CHR ''0'', r2, r3])
                \<noteq> (decimal [p1, p2, p3], decimal [r1, r2, r3])"
    using lo by auto
qed

lemma compact_date_20130421: "compact_date ''20130421'' = Inr 20130421"
  by (simp add: compact_date_def is_digit_def decimal_def)

lemma make_google_archive_scene_147: "make_google_archive compact_date scene_147 [''B4'', ''B5''] =
   Inr [(''product_id'', StrCol scene_147), (''date'', DateCol [20130421]),
        (''B4'', StrCol [''https://storage.googleapis.com/gcp-public-data-landsat/LC08/01/047/027/LC08_L1TP_147027_20130421_20170310_01_T1/LC08_L1TP_147027_20130421_20170310_01_T1_B4.TIF'']),
        (''B5'', StrCol [''https://storage.googleapis.com/gcp-public-data-landsat/LC08/01/047/027/LC08_L1TP_147027_20130421_20170310_01_T1/LC08_L1TP_147027_20130421_20170310_01_T1_B5.TIF''])]"
  by (simp add: make_google_archive_def scene_147_def py_index_def compact_date_20130421 add_bands_def base_url_def
      band_url_def archive_prefix_def slice_1_3_def slice_last2_def)

theorem make_google_archive_path_row_witness:
  "map_of [(''product_id'', StrCol scene_147), (''date'', DateCol [20130421::int]),
        (''B4'', StrCol [''https://storage.googleapis.com/gcp-public-data-landsat/LC08/01/047/027/LC08_L1TP_147027_20130421_20170310_01_T1/LC08_L1TP_147027_20130421_20170310_01_T1_B4.TIF'']),
        (''B5'', StrCol [''https://storage.googleapis.com/gcp-public-data-landsat/LC08/01/047/027/LC08_L1TP_147027_20130421_20170310_01_T1/LC08_L1TP_147027_20130421_20170310_01_T1_B5.TIF''])] ''B5''
    = Some (StrCol [''https://storage.googleapis.com/gcp-public-data-landsat/LC08/01/047/027/LC08_L1TP_147027_20130421_20170310_01_T1/LC08_L1TP_147027_20130421_20170310_01_T1_B5.TIF'']
             :: int column)
   \<and> 100 \<le> decimal ''147''
   \<and> (decimal ''047'', decimal ''027'') \<noteq> (decimal ''147'', decimal ''027'')"
proof -
  have first: "py_index scene_147 0 = Inr ''LC08_L1TP_147027_20130421_20170310_01_T1''"
    by (simp add: py_index_def scene_147_def)
  have f2: "py_index (py_split CHR ''_'' ''LC08_L1TP_147027_20130421_20170310_01_T1'') 2
              = Inr [CHR ''1'', CHR ''4'', CHR ''7'', CHR ''0'', CHR ''2'', CHR ''7'']"
    by (simp add: py_index_def)
  have dig: "list_all is_digit [CHR ''1'', CHR ''4'', CHR ''7'', CHR ''0'', CHR ''2'', CHR ''7'']"
    by (simp add: is_digit_def)
  have band: "''B5'' \<in> set [''B4'', ''B5'']" by simp
  have big: "100 \<le> decimal ''147''" by (simp add: decimal_def)
  from make_google_archive_path_row [OF make_google_archive_scene_147 first f2 dig band] big
  show ?thesis by (simp add: scene_147_def)
qed

section \<open>The rows of the archive frame\<close>





lemma compact_date_20130523: "compact_date ''20130523'' = Inr 20130523"
  by (simp add: compact_date_def is_digit_def decimal_def)

lemma compact_date_20130608: "compact_date ''20130608'' = Inr 20130608"
  by (simp add: compact_date_def is_digit_def decimal_def)


section \<open>Stage B when an acquisition fails to load\<close>

text \<open>What a successful \<^verbatim>\<open>xr.concat\<close>, and so a successful Stage B, implies.\<close>

lemma xr_concat_Inr:
  assumes "xr_concat dss idx = Inr U"
  shows "dss \<noteq> [] \<and> length idx = length dss \<and> time_coord U = idx
    \<and> y_coord U = outer_join (map item_y dss) \<and> x_coord U = outer_join (map item_x dss)
    \<and> (\<exists>al. align dss = Inr al \<and> stack_vars (map fst (item_vars (hd dss))) al = Inr (data_vars U))
    \<and> (\<forall>ds \<in> set dss. set (map fst (item_vars ds)) \<subseteq> set (map fst (item_vars (hd dss))))"
proof (cases dss)
  case Nil
  with assms show ?thesis by (simp add: xr_concat_def)
next
  case (Cons ds0 rest)
  from assms obtain al where al: "align dss = Inr al"
    by (cases "align dss") (simp_all add: xr_concat_def Cons)
  from assms al have names: "list_all (\<lambda>ds. set (map fst (item_vars ds)) \<subseteq> set (map fst (item_vars ds0))) dss"
    by (simp add: xr_concat_def Cons split: if_splits)
  from assms al names obtain vars where vars: "stack_vars (map fst (item_vars ds0)) al = Inr vars"
    by (cases "stack_vars (map fst (item_vars ds0)) al") (simp_all add: xr_concat_def Cons)
  from assms al names vars have len: "length idx = length dss"
    by (simp add: xr_concat_def Cons split: if_splits)
  from assms al names vars len
  have U: "U = \<lparr>time_coord = idx, y_coord = outer_join (map item_y dss),
                x_coord = outer_join (map item_x dss), data_vars = vars\<rparr>"
    by (simp add: xr_concat_def Cons)
  from names have "\<forall>ds \<in> set dss. set (map fst (item_vars ds)) \<subseteq> set (map fst (item_vars ds0))"
    by (simp add: list_all_iff)
  with al vars len U Cons show ?thesis by simp
qed

lemma unify_Inr:
  assumes "unify open_rasterio to_ds merge xr_concat df = Inr U"
  obtains dates where "date_tolist df = Inr dates"
    "xr_concat (fst (load_acquisitions open_rasterio to_ds merge (iterrows df))) dates = Inr U"
  using assms by (cases "date_tolist df") (simp_all add: unify_def concat_arguments_def)

lemma date_tolist_length:
  assumes "wf_dataframe df" "date_tolist df = Inr dates"
  shows "length dates = nrows df"
proof -
  from assms(2) have "map_of df ''date'' = Some (DateCol dates)"
    by (auto simp: date_tolist_def split: option.splits column.splits)
  then have "(''date'', DateCol dates) \<in> set df" by (rule map_of_SomeD)
  with assms(1) show ?thesis by (auto simp: wf_dataframe_def list_all_iff)
qed

text \<open>
  The loop collects at most one dataset per row, and fewer than one per row as soon as
  one row fails to load.
\<close>

lemma load_acquisitions_length:
  "length (fst (load_acquisitions open_rasterio to_ds merge rows)) \<le> length rows"
  by (induction rows) (auto split: prod.splits option.splits sum.splits)

lemma load_acquisitions_failure:
  assumes "row \<in> set rows"
    and "create_multiband_dataset open_rasterio to_ds merge row [''B4'', ''B5''] = Inl e"
  shows "length (fst (load_acquisitions open_rasterio to_ds merge rows)) < length rows"
  using assms
proof (induction rows)
  case Nil
  then show ?case by simp
next
  case (Cons r rows)
  have le: "length (fst (load_acquisitions open_rasterio to_ds merge rows)) \<le> length rows"
    by (rule load_acquisitions_length)
  show ?case
  proof (cases "r = row")
    case True
    with Cons.prems(2) le show ?thesis
      by (auto split: prod.splits option.splits sum.splits)
  next
    case False
    with Cons have "length (fst (load_acquisitions open_rasterio to_ds merge rows)) < length rows"
      by simp
    then show ?thesis
      by (auto split: prod.splits option.splits sum.splits)
  qed
qed

text \<open>
  The time index always has one entry per row of the frame. So whenever some
  acquisition fails to load, the lengths disagree and Stage B as a whole raises.
\<close>

lemma unify_raises_on_failure:
  assumes wf: "wf_dataframe df"
    and row: "row \<in> set (iterrows df)"
    and fail: "create_multiband_dataset open_rasterio to_ds merge row [''B4'', ''B5''] = Inl e"
  shows "isl (unify open_rasterio to_ds merge xr_concat df)"
proof (rule ccontr)
  assume "\<not> isl (unify open_rasterio to_ds merge xr_concat df)"
  then obtain U where "unify open_rasterio to_ds merge xr_concat df = Inr U"
    by (cases "unify open_rasterio to_ds merge xr_concat df") simp_all
  then obtain dates where dates: "date_tolist df = Inr dates"
    and c: "xr_concat (fst (load_acquisitions open_rasterio to_ds merge (iterrows df))) dates = Inr U"
    by (rule unify_Inr)
  from xr_concat_Inr [OF c]
  have "length dates = length (fst (load_acquisitions open_rasterio to_ds merge (iterrows df)))"
    by simp
  moreover have "length dates = length (iterrows df)"
    using date_tolist_length [OF wf dates] by (simp add: iterrows_def)
  moreover have "length (fst (load_acquisitions open_rasterio to_ds merge (iterrows df)))
                   < length (iterrows df)"
    using row fail by (rule load_acquisitions_failure)
  ultimately show False by simp
qed

text \<open>
  C2. Unification is to skip an item that fails to load and to succeed with one time
  entry per item that loaded. On the three-row frame \<open>archive_frame\<close>, with a loader
  for which band 4 of the second scene does not open, the loop skips that scene and
  prints the error, so two datasets are collected; the time index is still taken from
  all three rows of the frame. \<^verbatim>\<open>xr.concat\<close> receives two datasets and three dates,
  and raises.
\<close>

theorem unify_one_failure:
  "length (fst (concat_arguments failing_open to_dataset xr_merge archive_frame)) = 2
   \<and> snd (concat_arguments failing_open to_dataset xr_merge archive_frame)
       = Inr [20130421, 20130523, 20130608]
   \<and> snd (load_acquisitions failing_open to_dataset xr_merge (iterrows archive_frame))
       = [Loading (DateVal 20130421), Loading (DateVal 20130523), ErrorSkipping IOError,
          Loading (DateVal 20130608)]
   \<and> unify failing_open to_dataset xr_merge xr_concat archive_frame = Inl ValueError"
  by code_simp

section \<open>The index computation\<close>

lemma wf_cube_nth:
  assumes "wf_cube nt ny nx v" "t < nt" "j < ny"
  shows "length v = nt" "length (v ! t) = ny" "length (v ! t ! j) = nx"
  using assms by (auto simp: wf_cube_def list_all_length)

lemma wf_dataset_var:
  assumes "wf_dataset DS" "map_of (data_vars DS) name = Some v"
  shows "wf_cube (length (time_coord DS)) (length (y_coord DS)) (length (x_coord DS)) v"
proof -
  from assms(2) have "(name, v) \<in> set (data_vars DS)" by (rule map_of_SomeD)
  with assms(1) show ?thesis by (auto simp: wf_dataset_def list_all_iff)
qed

lemma map2_cube_nth:
  assumes "wf_cube nt ny nx a" "wf_cube nt ny nx b" "t < nt" "j < ny" "i < nx"
  shows "map2 (map2 (map2 f)) a b ! t ! j ! i = f (a ! t ! j ! i) (b ! t ! j ! i)"
  using assms wf_cube_nth [OF assms(1) assms(3) assms(4)] wf_cube_nth [OF assms(2) assms(3) assms(4)]
  by simp

lemma wf_cube_map2:
  assumes "wf_cube nt ny nx a" "wf_cube nt ny nx b"
  shows "wf_cube nt ny nx (map2 (map2 (map2 f)) a b)"
  using assms by (auto simp: wf_cube_def list_all_length)

lemma wf_cube_map: "wf_cube nt ny nx v \<Longrightarrow> wf_cube nt ny nx (map (map (map f)) v)"
  by (auto simp: wf_cube_def list_all_length)

lemma wf_cube_as_pixels: "wf_cube nt ny nx v \<Longrightarrow> wf_cube nt ny nx (as_pixels fl v)"
  by (simp add: as_pixels_def wf_cube_map)

lemma map_cube_nth:
  assumes "wf_cube nt ny nx v" "t < nt" "j < ny" "i < nx"
  shows "map (map (map f)) v ! t ! j ! i = f (v ! t ! j ! i)"
  using assms wf_cube_nth [OF assms(1) assms(2) assms(3)] by simp

lemma cube_cell_in:
  assumes "wf_cube nt ny nx v" "t < nt" "j < ny" "i < nx" "v ! t ! j ! i = None"
  shows "has_nan v"
proof -
  note l = wf_cube_nth [OF assms(1) assms(2) assms(3)]
  have "v ! t \<in> set v" "v ! t ! j \<in> set (v ! t)" "v ! t ! j ! i \<in> set (v ! t ! j)"
    using l assms(2-4) by simp_all
  with assms(5) show ?thesis unfolding has_nan_def list_ex_iff by metis
qed

text \<open>
  The structure of the computation: the result has the coordinates and the shape of the
  dataset, and each of its cells is numpy's quotient of the difference and the sum of
  the two bands' cells at the same position.
\<close>

lemma NDVI_cells:
  assumes wf: "wf_dataset DS"
    and b5: "map_of (data_vars DS) ''B5'' = Some v5"
    and b4: "map_of (data_vars DS) ''B4'' = Some v4"
  shows "\<exists>N. NDVI fl DS = Inr N
           \<and> da_time N = time_coord DS \<and> da_y N = y_coord DS \<and> da_x N = x_coord DS
           \<and> wf_data_array N
           \<and> (\<forall>t < length (time_coord DS). \<forall>j < length (y_coord DS). \<forall>i < length (x_coord DS).
                 da_values N ! t ! j ! i
                   = np_true_divide fl
                       (np_subtract fl (as_pixels fl v5 ! t ! j ! i) (as_pixels fl v4 ! t ! j ! i))
                       (np_add fl (as_pixels fl v5 ! t ! j ! i) (as_pixels fl v4 ! t ! j ! i)))"
proof -
  let ?nt = "length (time_coord DS)" and ?ny = "length (y_coord DS)" and ?nx = "length (x_coord DS)"
  let ?p5 = "as_pixels fl v5" and ?p4 = "as_pixels fl v4"
  let ?num = "map2 (map2 (map2 (np_subtract fl))) ?p5 ?p4"
  let ?den = "map2 (map2 (map2 (np_add fl))) ?p5 ?p4"
  let ?N = "\<lparr>da_time = time_coord DS, da_y = y_coord DS, da_x = x_coord DS,
             da_values = map2 (map2 (map2 (np_true_divide fl))) ?num ?den\<rparr>"
  have w5: "wf_cube ?nt ?ny ?nx ?p5" and w4: "wf_cube ?nt ?ny ?nx ?p4"
    using wf b5 b4 by (auto intro: wf_dataset_var wf_cube_as_pixels)
  have wn: "wf_cube ?nt ?ny ?nx ?num" and wd: "wf_cube ?nt ?ny ?nx ?den"
    using w5 w4 by (auto intro: wf_cube_map2)
  have eq: "NDVI fl DS = Inr ?N"
    by (simp add: NDVI_def getitem_def b5 b4 elementwise_def)
  have shape: "wf_data_array ?N"
    using wn wd by (simp add: wf_data_array_def wf_cube_map2)
  have cell: "da_values ?N ! t ! j ! i
                = np_true_divide fl (np_subtract fl (?p5 ! t ! j ! i) (?p4 ! t ! j ! i))
                    (np_add fl (?p5 ! t ! j ! i) (?p4 ! t ! j ! i))"
    if "t < ?nt" "j < ?ny" "i < ?nx" for t j i
    using that by (simp add: map2_cube_nth [OF wn wd] map2_cube_nth [OF w5 w4])
  from eq shape cell show ?thesis by auto
qed

text \<open>
  On bands that are still \<^verbatim>\<open>uint16\<close>, the difference and the sum are taken modulo
  \<open>2 ^ 16\<close> before the division: the quotient is that of the wrapped words.
\<close>

lemma NDVI_uint16_cell:
  assumes wf: "wf_dataset DS"
    and b5: "map_of (data_vars DS) ''B5'' = Some v5" and n5: "\<not> has_nan v5"
    and b4: "map_of (data_vars DS) ''B4'' = Some v4" and n4: "\<not> has_nan v4"
    and t: "t < length (time_coord DS)" and j: "j < length (y_coord DS)"
    and i: "i < length (x_coord DS)"
  shows "\<exists>a b. v5 ! t ! j ! i = Some a \<and> v4 ! t ! j ! i = Some b
           \<and> da_values (projr (NDVI fl DS)) ! t ! j ! i
               = Float (fdiv fl (of_uint16 fl (a - b)) (of_uint16 fl (a + b)))"
proof -
  let ?nt = "length (time_coord DS)" and ?ny = "length (y_coord DS)" and ?nx = "length (x_coord DS)"
  have w5: "wf_cube ?nt ?ny ?nx v5" and w4: "wf_cube ?nt ?ny ?nx v4"
    using wf b5 b4 by (auto intro: wf_dataset_var)
  from n5 cube_cell_in [OF w5 t j i] obtain a where a: "v5 ! t ! j ! i = Some a" by auto
  from n4 cube_cell_in [OF w4 t j i] obtain b where b: "v4 ! t ! j ! i = Some b" by auto
  have p5: "as_pixels fl v5 ! t ! j ! i = UInt16 a"
    using n5 a by (simp add: as_pixels_def map_cube_nth [OF w5 t j i])
  have p4: "as_pixels fl v4 ! t ! j ! i = UInt16 b"
    using n4 b by (simp add: as_pixels_def map_cube_nth [OF w4 t j i])
  from NDVI_cells [OF wf b5 b4, of fl] obtain N where N: "NDVI fl DS = Inr N"
    and cell: "\<forall>t < ?nt. \<forall>j < ?ny. \<forall>i < ?nx.
                 da_values N ! t ! j ! i
                   = np_true_divide fl
                       (np_subtract fl (as_pixels fl v5 ! t ! j ! i) (as_pixels fl v4 ! t ! j ! i))
                       (np_add fl (as_pixels fl v5 ! t ! j ! i) (as_pixels fl v4 ! t ! j ! i))"
    by blast
  from cell t j i have "da_values N ! t ! j ! i
      = np_true_divide fl (np_subtract fl (UInt16 a) (UInt16 b)) (np_add fl (UInt16 a) (UInt16 b))"
    by (simp add: p5 p4)
  then have "da_values (projr (NDVI fl DS)) ! t ! j ! i
               = Float (fdiv fl (of_uint16 fl (a - b)) (of_uint16 fl (a + b)))"
    by (simp add: N np_true_divide_def)
  with a b show ?thesis by blast
qed

lemma unify_uint16:
  "unify uint16_open to_dataset xr_merge xr_concat archive_frame = Inr uint16_unified"
  by code_simp

lemma wf_uint16_unified: "wf_dataset uint16_unified"
  by (simp add: wf_dataset_def wf_cube_def uint16_unified_def)

text \<open>
  C4. The index is to be \<open>(B5 - B4) / (B5 + B4)\<close> at every cell. Stage B on
  \<open>archive_frame\<close> with three scenes on one grid fills nothing in, so both bands are
  still \<^verbatim>\<open>uint16\<close>. At the first cell band 5 is 1 and band 4 is 3: the difference
  wraps around to 65534, and the code divides 65534 by 4, in whatever float arithmetic,
  where the formula asks for \<open>- 2\<close> divided by 4.
\<close>

theorem NDVI_uint16_wraps:
  "unify uint16_open to_dataset xr_merge xr_concat archive_frame = Inr uint16_unified
   \<and> the (map_of (data_vars uint16_unified) ''B5'') ! 0 ! 0 ! 0 = Some 1
   \<and> the (map_of (data_vars uint16_unified) ''B4'') ! 0 ! 0 ! 0 = Some 3
   \<and> da_values (projr (NDVI fl uint16_unified)) ! 0 ! 0 ! 0
       = Float (fdiv fl (of_uint16 fl 65534) (of_uint16 fl 4))
   \<and> unat (65534 :: 16 word) = 65534 \<and> unat (4 :: 16 word) = 4"
proof -
  have b5: "map_of (data_vars uint16_unified) ''B5''
              = Some [[[Some 1, Some 5], [Some 2, Some 6]],
                      [[Some 1, Some 5], [Some 2, Some 6]],
                      [[Some 1, Some 5], [Some 2, Some 6]]]"
    and b4: "map_of (data_vars uint16_unified) ''B4''
              = Some [[[Some 3, Some 2], [Some 1, Some 4]],
                      [[Some 3, Some 2], [Some 1, Some 4]],
                      [[Some 3, Some 2], [Some 1, Some 4]]]"
    by (simp_all add: uint16_unified_def)
  have n: "\<not> has_nan [[[Some (1::16 word), Some 5], [Some 2, Some 6]],
                      [[Some 1, Some 5], [Some 2, Some 6]],
                      [[Some 1, Some 5], [Some 2, Some 6]]]"
    "\<not> has_nan [[[Some (3::16 word), Some 2], [Some 1, Some 4]],
                      [[Some 3, Some 2], [Some 1, Some 4]],
                      [[Some 3, Some 2], [Some 1, Some 4]]]"
    by (simp_all add: has_nan_def)
  have r: "0 < length (time_coord uint16_unified)" "0 < length (y_coord uint16_unified)"
    "0 < length (x_coord uint16_unified)"
    by (simp_all add: uint16_unified_def)
  from NDVI_uint16_cell [OF wf_uint16_unified b5 n(1) b4 n(2) r, of fl]
  have "da_values (projr (NDVI fl uint16_unified)) ! 0 ! 0 ! 0
          = Float (fdiv fl (of_uint16 fl (1 - 3)) (of_uint16 fl (1 + 3)))"
    by simp
  moreover have "(1 :: 16 word) - 3 = 65534" "(1 :: 16 word) + 3 = 4" by simp_all
  ultimately have "da_values (projr (NDVI fl uint16_unified)) ! 0 ! 0 ! 0
          = Float (fdiv fl (of_uint16 fl 65534) (of_uint16 fl 4))"
    by (simp only:)
  with unify_uint16 b5 b4 show ?thesis by simp
qed

section \<open>Stage A makes no axis check\<close>

lemma set_outer_join: "set (outer_join idxs) = \<Union> (set ` set idxs)"
proof (cases idxs)
  case Nil
  then show ?thesis by (simp add: outer_join_def)
next
  case (Cons i rest)
  show ?thesis
  proof (cases "list_all (\<lambda>j. j = i) rest")
    case True
    then have "\<forall>j \<in> set rest. j = i" by (simp add: list_all_iff)
    then have "\<Union> (set ` set rest) \<subseteq> set i" by auto
    with True Cons show ?thesis by (auto simp: outer_join_def)
  next
    case False
    with Cons show ?thesis by (simp add: outer_join_def)
  qed
qed

text \<open>
  C7, as the code has it. Stage A does not compare the axes of the bands. Whenever the
  row names a URL for band 4 and for band 5 and both open, with unique labels on each
  axis, \<open>create_multiband_dataset\<close> succeeds, whether or not the axes agree: the
  result carries both bands on the outer join of their axes, which holds every label
  of either band.
\<close>

theorem create_multiband_dataset_no_check:
  assumes u4: "map_of row ''B4'' = Some (StrVal url4)"
    and u5: "map_of row ''B5'' = Some (StrVal url5)"
    and o4: "open_rasterio url4 = Inr da4"
    and o5: "open_rasterio url5 = Inr da5"
    and d: "distinct (ras_y da4)" "distinct (ras_x da4)" "distinct (ras_y da5)" "distinct (ras_x da5)"
  shows "\<exists>ds. create_multiband_dataset open_rasterio to_dataset xr_merge row [''B4'', ''B5''] = Inr ds
           \<and> item_y ds = outer_join [ras_y da4, ras_y da5]
           \<and> item_x ds = outer_join [ras_x da4, ras_x da5]
           \<and> set (item_y ds) = set (ras_y da4) \<union> set (ras_y da5)
           \<and> set (item_x ds) = set (ras_x da4) \<union> set (ras_x da5)
           \<and> map fst (item_vars ds) = [''B4'', ''B5'']"
proof -
  let ?dss = "[to_dataset ''B4'' da4, to_dataset ''B5'' da5]"
  have opened: "open_bands open_rasterio to_dataset row [''B4'', ''B5''] = Inr ?dss"
    by (simp add: u4 u5 o4 o5)
  have al: "align ?dss = Inr (map (reindex_item (outer_join [ras_y da4, ras_y da5])
                                     (outer_join [ras_x da4, ras_x da5])) ?dss)"
    using d by (simp add: align_def to_dataset_def can_reindex_def Let_def)
  let ?ys = "outer_join [ras_y da4, ras_y da5]" and ?xs = "outer_join [ras_x da4, ras_x da5]"
  let ?vars = "item_vars (reindex_item ?ys ?xs (to_dataset ''B4'' da4))
                 @ item_vars (reindex_item ?ys ?xs (to_dataset ''B5'' da5))"
  have names: "map fst ?vars = [''B4'', ''B5'']"
    by (simp add: reindex_item_def to_dataset_def)
  have "merge_vars [] ?vars = Inr ?vars"
    by (simp add: reindex_item_def to_dataset_def)
  then have m: "xr_merge ?dss = Inr \<lparr>item_y = ?ys, item_x = ?xs, item_vars = ?vars\<rparr>"
    unfolding xr_merge_def al by (simp add: to_dataset_def)
  show ?thesis
    unfolding create_multiband_dataset_def opened
    using names by (simp add: m set_outer_join)
qed

text \<open>
  C7 as stated fails: for an acquisition whose band 5 is shifted against band 4, Stage A
  does not fail; it returns the two bands on the joined \<open>x\<close> axis, padded with NaN.
\<close>

theorem create_multiband_dataset_misaligned:
  "ras_x scene_raster \<noteq> ras_x shifted_raster
   \<and> create_multiband_dataset misaligned_open to_dataset xr_merge (iterrows archive_frame ! 0)
        [''B4'', ''B5'']
      = Inr \<lparr>item_y = [2, 1], item_x = [10, 20, 30],
             item_vars =
               [(''B4'', [[Some 1, Some 2, None], [Some 3, Some 4, None]]),
                (''B5'', [[None, Some 5, Some 6], [None, Some 7, Some 8]])]\<rparr>"
  by code_simp

lemma archive_frame_first_row:
  "map_of (iterrows archive_frame ! 0) ''B4'' = Some (StrVal ''https://storage.googleapis.com/gcp-public-data-landsat/LC08/01/047/027/LC08_L1TP_047027_20130421_20170310_01_T1/LC08_L1TP_047027_20130421_20170310_01_T1_B4.TIF'')"
  "map_of (iterrows archive_frame ! 0) ''B5'' = Some (StrVal ''https://storage.googleapis.com/gcp-public-data-landsat/LC08/01/047/027/LC08_L1TP_047027_20130421_20170310_01_T1/LC08_L1TP_047027_20130421_20170310_01_T1_B5.TIF'')"
  by code_simp+

theorem create_multiband_dataset_no_check_witness:
  "item_x (projr (create_multiband_dataset misaligned_open to_dataset xr_merge
                    (iterrows archive_frame ! 0) [''B4'', ''B5''])) = [10, 20, 30]
   \<and> map fst (item_vars (projr (create_multiband_dataset misaligned_open to_dataset xr_merge
                    (iterrows archive_frame ! 0) [''B4'', ''B5'']))) = [''B4'', ''B5'']"
proof -
  have o4: "misaligned_open ''https://storage.googleapis.com/gcp-public-data-landsat/LC08/01/047/027/LC08_L1TP_047027_20130421_20170310_01_T1/LC08_L1TP_047027_20130421_20170310_01_T1_B4.TIF'' = Inr scene_raster"
    by (simp add: misaligned_open_def)
  have o5: "misaligned_open ''https://storage.googleapis.com/gcp-public-data-landsat/LC08/01/047/027/LC08_L1TP_047027_20130421_20170310_01_T1/LC08_L1TP_047027_20130421_20170310_01_T1_B5.TIF'' = Inr shifted_raster"
    by (simp add: misaligned_open_def)
  have d: "distinct (ras_y scene_raster)" "distinct (ras_x scene_raster)"
    "distinct (ras_y shifted_raster)" "distinct (ras_x shifted_raster)"
    by (simp_all add: scene_raster_def shifted_raster_def)
  have oj: "outer_join [ras_x scene_raster, ras_x shifted_raster] = [10, 20, 30]"
    by (simp add: outer_join_def scene_raster_def shifted_raster_def)
  from create_multiband_dataset_no_check [OF archive_frame_first_row o4 o5 d] oj
  show ?thesis by auto
qed

section \<open>The spatial window\<close>

lemma map_nth_filter_upt:
  "map (\<lambda>i. xs ! i) (filter (\<lambda>i. P (xs ! i)) [0..<length xs]) = filter P xs"
proof (induction xs rule: rev_induct)
  case Nil
  then show ?case by simp
next
  case (snoc x xs)
  have "map (\<lambda>i. (xs @ [x]) ! i) (filter (\<lambda>i. P ((xs @ [x]) ! i)) [0..<length xs])
          = map (\<lambda>i. xs ! i) (filter (\<lambda>i. P (xs ! i)) [0..<length xs])"
    by (intro map_cong filter_cong refl) (auto simp: nth_append)
  with snoc show ?case by simp
qed

lemma slice_indexer_sorted:
  "sorted axis \<Longrightarrow>
     slice_indexer axis start stop =
       Inr (filter (\<lambda>i. start \<le> axis ! i \<and> axis ! i \<le> stop) [0..<length axis])"
  by (simp add: slice_indexer_def)

text \<open>
  C8, as the code has it. On an array whose \<open>x\<close> and \<open>y\<close> axes ascend, the selection
  around the first selected point \<open>(xcen, ycen)\<close> never fails. It keeps exactly the
  labels within \<open>[xcen - 5000, xcen + 5000]\<close> and \<open>[ycen - 5000, ycen + 5000]\<close>, both
  bounds included, with the values at the positions kept. When no label lies in the
  window, the axis of the result is empty: there is no error for an empty selection.
\<close>

theorem select_window_inclusive:
  assumes sx: "sorted (da_x a)" and sy: "sorted (da_y a)"
    and tap: "py_index taps 0 = Inr (xcen, ycen)"
  shows "\<exists>w px py.
           select_window a taps = Inr w
           \<and> px = filter (\<lambda>i. xcen - 5000 \<le> da_x a ! i \<and> da_x a ! i \<le> xcen + 5000) [0..<length (da_x a)]
           \<and> py = filter (\<lambda>j. ycen - 5000 \<le> da_y a ! j \<and> da_y a ! j \<le> ycen + 5000) [0..<length (da_y a)]
           \<and> da_time w = da_time a
           \<and> da_x w = filter (\<lambda>c. xcen - 5000 \<le> c \<and> c \<le> xcen + 5000) (da_x a)
           \<and> da_y w = filter (\<lambda>c. ycen - 5000 \<le> c \<and> c \<le> ycen + 5000) (da_y a)
           \<and> da_values w = map (\<lambda>plane. map (\<lambda>j. map (\<lambda>i. plane ! j ! i) px) py) (da_values a)"
  by (simp add: select_window_def tap sel_def slice_indexer_sorted [OF sx] slice_indexer_sorted [OF sy]
      buf_def map_nth_filter_upt [of "da_x a" "\<lambda>c. xcen - 5000 \<le> c \<and> c \<le> xcen + 5000"]
      map_nth_filter_upt [of "da_y a" "\<lambda>c. ycen - 5000 \<le> c \<and> c \<le> ycen + 5000"])

text \<open>
  C8 as stated fails: a window around \<open>x = 100000\<close>, wholly west of the array's extent
  \<open>[560000, 569000]\<close>, is selected without error and gives an array with no \<open>x\<close>
  label.
\<close>

theorem select_window_outside:
  "select_window small_ndvi [(100000, 5311000)]
     = Inr \<lparr>da_time = [20130421], da_y = [5310000, 5312000], da_x = [],
            da_values = [[[], []]]\<rparr>"
  by (simp add: select_window_def py_index_def sel_def slice_indexer_def small_ndvi_def buf_def)

theorem select_window_inclusive_witness:
  "sorted (da_x small_ndvi) \<and> sorted (da_y small_ndvi)
   \<and> da_x (projr (select_window small_ndvi (default_taps []))) = [560000, 562000]
   \<and> da_y (projr (select_window small_ndvi (default_taps []))) = [5310000, 5312000]"
proof -
  have sx: "sorted (da_x small_ndvi)" and sy: "sorted (da_y small_ndvi)"
    by (simp_all add: small_ndvi_def)
  have tap: "py_index (default_taps []) 0 = Inr (562370 :: int, 5312519 :: int)"
    by (simp add: default_taps_def py_index_def)
  from select_window_inclusive [OF sx sy tap] sx sy
  show ?thesis by (auto simp: small_ndvi_def)
qed

section \<open>The time axis follows the input order\<close>

lemma column_at_take_column:
  "i < length perm \<Longrightarrow> column_at (take_column perm col) i = column_at col (perm ! i)"
  by (cases col) simp_all

lemma column_len_take_column: "column_len (take_column perm col) = length perm"
  by (cases col) simp_all

lemma nrows_take_rows: "df \<noteq> [] \<Longrightarrow> nrows (take_rows perm df) = length perm"
  by (cases df) (auto simp: nrows_def take_rows_def column_len_take_column split: prod.splits)

lemma iterrows_take_rows:
  assumes "\<forall>i \<in> set perm. i < nrows df"
  shows "iterrows (take_rows perm df) = map (\<lambda>i. iterrows df ! i) perm"
proof (cases "df = []")
  case True
  with assms have "perm = []" by (cases perm) (auto simp: nrows_def)
  with True show ?thesis by (simp add: iterrows_def take_rows_def nrows_def)
next
  case False
  show ?thesis
  proof (rule nth_equalityI)
    show "length (iterrows (take_rows perm df)) = length (map (\<lambda>i. iterrows df ! i) perm)"
      by (simp add: iterrows_def nrows_take_rows [OF False])
  next
    fix i assume "i < length (iterrows (take_rows perm df))"
    then have i: "i < length perm" by (simp add: iterrows_def nrows_take_rows [OF False])
    then have p: "perm ! i < nrows df" using assms by simp
    have "iterrows (take_rows perm df) ! i
            = map (\<lambda>(name, col). (name, column_at col i)) (take_rows perm df)"
      using i by (simp add: iterrows_def nrows_take_rows [OF False])
    also have "\<dots> = map (\<lambda>(name, col). (name, column_at (take_column perm col) i)) df"
      by (simp add: take_rows_def case_prod_unfold comp_def)
    also have "\<dots> = map (\<lambda>(name, col). (name, column_at col (perm ! i))) df"
      using i by (simp add: column_at_take_column)
    also have "\<dots> = iterrows df ! (perm ! i)"
      using p by (simp add: iterrows_def)
    finally show "iterrows (take_rows perm df) ! i = map (\<lambda>i. iterrows df ! i) perm ! i"
      using i by simp
  qed
qed

lemma map_of_take_rows:
  "map_of (take_rows perm df) name = map_option (take_column perm) (map_of df name)"
  by (induction df) (auto simp: take_rows_def)

lemma date_tolist_take_rows:
  "date_tolist df = Inr dates \<Longrightarrow>
     date_tolist (take_rows perm df) = Inr (map (\<lambda>i. dates ! i) perm)"
  by (auto simp: date_tolist_def map_of_take_rows split: option.splits column.splits)

lemma load_acquisitions_all:
  assumes "length (fst (load_acquisitions open_rasterio to_ds merge rows)) = length rows"
  shows "fst (load_acquisitions open_rasterio to_ds merge rows)
           = map (\<lambda>row. projr (create_multiband_dataset open_rasterio to_ds merge row [''B4'', ''B5''])) rows
         \<and> (\<forall>row \<in> set rows. map_of row ''date'' \<noteq> None
               \<and> \<not> isl (create_multiband_dataset open_rasterio to_ds merge row [''B4'', ''B5'']))"
  using assms
proof (induction rows)
  case Nil
  then show ?case by simp
next
  case (Cons r rows)
  have le: "length (fst (load_acquisitions open_rasterio to_ds merge rows)) \<le> length rows"
    by (rule load_acquisitions_length)
  from Cons.prems le
  have ok: "map_of r ''date'' \<noteq> None
            \<and> \<not> isl (create_multiband_dataset open_rasterio to_ds merge r [''B4'', ''B5''])
            \<and> length (fst (load_acquisitions open_rasterio to_ds merge rows)) = length rows"
    by (auto split: prod.splits option.splits sum.splits)
  with Cons.IH show ?case
    by (auto split: prod.splits option.splits sum.splits)
qed

lemma load_acquisitions_all_conv:
  assumes "\<forall>row \<in> set rows. map_of row ''date'' \<noteq> None
               \<and> \<not> isl (create_multiband_dataset open_rasterio to_ds merge row [''B4'', ''B5''])"
  shows "fst (load_acquisitions open_rasterio to_ds merge rows)
           = map (\<lambda>row. projr (create_multiband_dataset open_rasterio to_ds merge row [''B4'', ''B5''])) rows"
  using assms
  by (induction rows) (auto split: prod.splits option.splits sum.splits)

lemma sort_remdups_set:
  fixes xs ys :: "'a::linorder list"
  assumes "set xs = set ys"
  shows "sort (remdups xs) = sort (remdups ys)"
proof -
  have "sort (remdups xs) = sorted_list_of_set (set xs)"
    by (simp only: sorted_list_of_set_sort_remdups)
  also have "\<dots> = sorted_list_of_set (set ys)" by (simp only: assms)
  also have "\<dots> = sort (remdups ys)" by (simp only: sorted_list_of_set_sort_remdups)
  finally show ?thesis .
qed

lemma outer_join_cases:
  "outer_join idxs =
     (if idxs = [] then []
      else if \<forall>j \<in> set idxs. j = hd idxs then hd idxs
      else sort (remdups (concat idxs)))"
  by (cases idxs) (simp_all add: outer_join_def list_all_iff)

lemma outer_join_set_eq:
  assumes "set idxs' = set idxs"
  shows "outer_join idxs' = outer_join idxs"
proof (cases "idxs = []")
  case True
  with assms show ?thesis by simp
next
  case False
  with assms have ne: "idxs' \<noteq> []" by auto
  have h: "hd idxs \<in> set idxs" using False by (rule hd_in_set)
  have "hd idxs' \<in> set idxs'" using ne by (rule hd_in_set)
  then have h': "hd idxs' \<in> set idxs" by (simp only: assms)
  have u: "outer_join idxs =
             (if \<forall>j \<in> set idxs. j = hd idxs then hd idxs else sort (remdups (concat idxs)))"
    using False by (simp only: outer_join_cases if_False)
  have u': "outer_join idxs' =
             (if \<forall>j \<in> set idxs'. j = hd idxs' then hd idxs' else sort (remdups (concat idxs')))"
    using ne by (simp only: outer_join_cases if_False)
  show ?thesis
  proof (cases "\<forall>j \<in> set idxs. j = hd idxs")
    case True
    from True h' have e: "hd idxs' = hd idxs" by (rule bspec)
    have all': "\<forall>j \<in> set idxs'. j = hd idxs'" unfolding assms e by (rule True)
    have "outer_join idxs' = hd idxs'" unfolding u' using all' by (rule if_P)
    moreover have "outer_join idxs = hd idxs" unfolding u using True by (rule if_P)
    ultimately show ?thesis by (simp only: e)
  next
    case no: False
    have no': "\<not> (\<forall>j \<in> set idxs'. j = hd idxs')"
    proof
      assume all: "\<forall>j \<in> set idxs'. j = hd idxs'"
      have "hd idxs \<in> set idxs'" unfolding assms by (rule h)
      with all have e: "hd idxs = hd idxs'" by (rule bspec)
      have "\<forall>j \<in> set idxs. j = hd idxs" unfolding e assms [symmetric] by (rule all)
      with no show False by (rule notE)
    qed
    have a: "outer_join idxs = sort (remdups (concat idxs))"
      unfolding u using no by (rule if_not_P)
    have b: "outer_join idxs' = sort (remdups (concat idxs'))"
      unfolding u' using no' by (rule if_not_P)
    have "set (concat idxs') = set (concat idxs)" by (simp only: set_concat assms)
    then show ?thesis unfolding a b by (rule sort_remdups_set)
  qed
qed

lemma align_Inr:
  assumes "align dss = Inr al"
  shows "al = map (reindex_item (outer_join (map item_y dss)) (outer_join (map item_x dss))) dss"
  using assms by (auto simp: align_def Let_def split: if_splits)

lemma align_set_eq:
  assumes "align dss = Inr al" "set dss' = set dss"
  shows "align dss' =
           Inr (map (reindex_item (outer_join (map item_y dss)) (outer_join (map item_x dss))) dss')"
proof -
  have y: "outer_join (map item_y dss') = outer_join (map item_y dss)"
    and x: "outer_join (map item_x dss') = outer_join (map item_x dss)"
    by (rule outer_join_set_eq, simp add: assms(2))+
  from assms(1) have "list_all (\<lambda>ds. can_reindex (item_y ds) (outer_join (map item_y dss))
                        \<and> can_reindex (item_x ds) (outer_join (map item_x dss))) dss"
    by (auto simp: align_def Let_def split: if_splits)
  with assms(2) have "list_all (\<lambda>ds. can_reindex (item_y ds) (outer_join (map item_y dss))
                        \<and> can_reindex (item_x ds) (outer_join (map item_x dss))) dss'"
    by (simp add: list_all_iff)
  then show ?thesis by (simp add: align_def Let_def x y)
qed

lemma stack_var_Inr:
  "stack_var name al = Inr cube \<Longrightarrow>
     (\<forall>ds \<in> set al. map_of (item_vars ds) name \<noteq> None)
     \<and> cube = map (\<lambda>ds. the (map_of (item_vars ds) name)) al"
  by (induction al arbitrary: cube) (auto split: option.splits sum.splits)

lemma stack_vars_Inr:
  "stack_vars names al = Inr vars \<Longrightarrow>
     (\<forall>n \<in> set names. \<forall>ds \<in> set al. map_of (item_vars ds) n \<noteq> None)
     \<and> vars = map (\<lambda>n. (n, map (\<lambda>ds. the (map_of (item_vars ds) n)) al)) names"
proof (induction names arbitrary: vars)
  case Nil
  then show ?case by simp
next
  case (Cons n names)
  from Cons.prems obtain cube rest where
    c: "stack_var n al = Inr cube" and r: "stack_vars names al = Inr rest"
    and v: "vars = (n, cube) # rest"
    by (auto split: sum.splits)
  from stack_var_Inr [OF c] Cons.IH [OF r] v show ?case by auto
qed

lemma map_of_tabulate:
  "map_of (map (\<lambda>n. (n, f n)) names) name = (if name \<in> set names then Some (f name) else None)"
  by (induction names) auto

lemma names_reindex_item:
  "map_of (item_vars (reindex_item ys xs ds)) n \<noteq> None \<longleftrightarrow> map_of (item_vars ds) n \<noteq> None"
proof -
  have "fst ` set (item_vars (reindex_item ys xs ds)) = fst ` set (item_vars ds)"
    by (force simp: reindex_item_def)
  then show ?thesis by (simp add: map_of_eq_None_iff)
qed

lemma xr_concat_permuted:
  assumes c0: "xr_concat dss idx = Inr U0"
    and perm: "mset perm = mset [0..<length dss]"
    and c: "xr_concat (map (\<lambda>i. dss ! i) perm) idx' = Inr U"
  shows "y_coord U = y_coord U0 \<and> x_coord U = x_coord U0
         \<and> (\<forall>name. map_of (data_vars U) name
                = map_option (\<lambda>cube. map (\<lambda>i. cube ! i) perm) (map_of (data_vars U0) name))"
proof -
  let ?dss' = "map (\<lambda>i. dss ! i) perm"
  let ?ys = "outer_join (map item_y dss)" and ?xs = "outer_join (map item_x dss)"
  let ?al = "map (reindex_item ?ys ?xs) dss"
  let ?al' = "map (reindex_item ?ys ?xs) ?dss'"
  let ?names = "map fst (item_vars (hd dss))"
  let ?names' = "map fst (item_vars (hd ?dss'))"
  let ?col = "\<lambda>al n. map (\<lambda>ds. the (map_of (item_vars ds) n)) al"
  from perm have sp: "set perm = {0..<length dss}"
    by (metis mset_eq_setD set_upt)
  have "set (map (\<lambda>i. dss ! i) [0..<length dss]) = set dss" by (simp only: map_nth)
  with sp have seteq: "set ?dss' = set dss" by simp
  note f0 = xr_concat_Inr [OF c0] and f = xr_concat_Inr [OF c]
  from f0 obtain al where al: "align dss = Inr al"
    and st0: "stack_vars ?names al = Inr (data_vars U0)" by blast
  from align_Inr [OF al] have al_eq: "al = ?al" .
  from align_set_eq [OF al seteq] have al': "align ?dss' = Inr ?al'" .
  from f al' have st: "stack_vars ?names' ?al' = Inr (data_vars U)" by auto
  have "set (map item_y ?dss') = set (map item_y dss)"
    using arg_cong [OF seteq, of "image item_y"] by (simp only: set_map)
  then have ys: "outer_join (map item_y ?dss') = ?ys" by (rule outer_join_set_eq)
  have "set (map item_x ?dss') = set (map item_x dss)"
    using arg_cong [OF seteq, of "image item_x"] by (simp only: set_map)
  then have xs: "outer_join (map item_x ?dss') = ?xs" by (rule outer_join_set_eq)
  have coords: "y_coord U = y_coord U0" "x_coord U = x_coord U0"
    using f f0 ys xs by simp_all
  from stack_vars_Inr [OF st0] al_eq
  have present: "\<forall>n \<in> set ?names. \<forall>a \<in> set ?al. map_of (item_vars a) n \<noteq> None"
    and v0: "data_vars U0 = map (\<lambda>n. (n, ?col ?al n)) ?names" by auto
  from stack_vars_Inr [OF st]
  have v: "data_vars U = map (\<lambda>n. (n, ?col ?al' n)) ?names'" by auto
  have same_names: "set (map fst (item_vars ds)) = set ?names" if ds: "ds \<in> set dss" for ds
  proof
    show "set (map fst (item_vars ds)) \<subseteq> set ?names" using f0 ds by blast
    show "set ?names \<subseteq> set (map fst (item_vars ds))"
    proof
      fix n assume n: "n \<in> set ?names"
      from ds have "reindex_item ?ys ?xs ds \<in> set ?al" by simp
      with present n have "map_of (item_vars (reindex_item ?ys ?xs ds)) n \<noteq> None" by blast
      then have "map_of (item_vars ds) n \<noteq> None" by (rule iffD1 [OF names_reindex_item])
      then show "n \<in> set (map fst (item_vars ds))" by (simp add: map_of_eq_None_iff)
    qed
  qed
  from f have "?dss' \<noteq> []" by simp
  then have "hd ?dss' \<in> set ?dss'" by (rule hd_in_set)
  with seteq have "hd ?dss' \<in> set dss" by simp
  then have names': "set ?names' = set ?names" by (rule same_names)
  have colperm: "?col ?al' n = map (\<lambda>i. ?col ?al n ! i) perm" for n
    using sp by (auto simp: comp_def)
  have "map_of (data_vars U) name
          = map_option (\<lambda>cube. map (\<lambda>i. cube ! i) perm) (map_of (data_vars U0) name)" for name
    unfolding v v0 map_of_tabulate using names' colperm by simp
  with coords show ?thesis by blast
qed


text \<open>
  C3, as the code has it. The time axis of the unified dataset is the date column of
  the frame, in the order of its rows: nothing sorts it. When the rows are permuted
  before Stage B, the time axis and the time slices of every band are permuted in the
  same way; the spatial axes and the multiset of time entries stay the same.
\<close>

theorem unify_follows_input_order:
  assumes wf: "wf_dataframe df"
    and perm: "mset perm = mset [0..<nrows df]"
    and U0: "unify open_rasterio to_ds merge xr_concat df = Inr U0"
    and U: "unify open_rasterio to_ds merge xr_concat (take_rows perm df) = Inr U"
  shows "date_tolist df = Inr (time_coord U0)
         \<and> time_coord U = map (\<lambda>i. time_coord U0 ! i) perm
         \<and> mset (time_coord U) = mset (time_coord U0)
         \<and> y_coord U = y_coord U0 \<and> x_coord U = x_coord U0
         \<and> (\<forall>name. map_of (data_vars U) name
                = map_option (\<lambda>cube. map (\<lambda>i. cube ! i) perm) (map_of (data_vars U0) name))"
proof -
  let ?load = "\<lambda>row. projr (create_multiband_dataset open_rasterio to_ds merge row [''B4'', ''B5''])"
  let ?rows = "iterrows df"
  let ?dss = "fst (load_acquisitions open_rasterio to_ds merge ?rows)"
  let ?dss' = "fst (load_acquisitions open_rasterio to_ds merge (iterrows (take_rows perm df)))"
  from U0 obtain dates where dates: "date_tolist df = Inr dates"
    and c0: "xr_concat ?dss dates = Inr U0" by (rule unify_Inr)
  from U obtain dates' where dates': "date_tolist (take_rows perm df) = Inr dates'"
    and c: "xr_concat ?dss' dates' = Inr U" by (rule unify_Inr)
  from date_tolist_take_rows [OF dates] dates'
  have d': "dates' = map (\<lambda>i. dates ! i) perm" by simp
  note f0 = xr_concat_Inr [OF c0] and f = xr_concat_Inr [OF c]
  have n: "length dates = nrows df" using wf dates by (rule date_tolist_length)
  have nr: "length ?rows = nrows df" by (simp add: iterrows_def)
  from f0 n nr have all: "length ?dss = length ?rows" by simp
  note la = load_acquisitions_all [OF all]
  from la have dss: "?dss = map ?load ?rows" by (rule conjunct1)
  from perm have sp: "set perm = {0..<nrows df}" by (metis mset_eq_setD set_upt)
  then have rows': "iterrows (take_rows perm df) = map (\<lambda>i. ?rows ! i) perm"
    by (intro iterrows_take_rows) simp
  have "\<forall>row \<in> set (map (\<lambda>i. ?rows ! i) perm). map_of row ''date'' \<noteq> None
           \<and> \<not> isl (create_multiband_dataset open_rasterio to_ds merge row [''B4'', ''B5''])"
    using la sp nr by (auto simp del: upt_Suc)
  from load_acquisitions_all_conv [OF this]
  have "?dss' = map ?load (map (\<lambda>i. ?rows ! i) perm)" by (simp only: rows')
  also have "\<dots> = map (\<lambda>i. ?dss ! i) perm"
    using sp nr by (simp add: dss)
  finally have dss': "?dss' = map (\<lambda>i. ?dss ! i) perm" .
  from perm all nr have perm': "mset perm = mset [0..<length ?dss]" by simp
  from c have c': "xr_concat (map (\<lambda>i. ?dss ! i) perm) dates' = Inr U" by (simp only: dss')
  note p = xr_concat_permuted [OF c0 perm' c']
  have t0: "time_coord U0 = dates" using f0 by simp
  have t: "time_coord U = map (\<lambda>i. dates ! i) perm" using f d' by simp
  have "mset (map (\<lambda>i. dates ! i) perm) = mset (map (\<lambda>i. dates ! i) [0..<length dates])"
    using perm n by (simp only: mset_map)
  then have m: "mset (map (\<lambda>i. dates ! i) perm) = mset dates" by (simp only: map_nth)
  from p t0 t m dates show ?thesis by simp
qed

lemma unify_archive_frame:
  "unify misaligned_open to_dataset xr_merge xr_concat archive_frame = Inr unified_frame"
  by code_simp

lemma unify_reversed_frame:
  "unify misaligned_open to_dataset xr_merge xr_concat (take_rows [2, 1, 0] archive_frame)
     = Inr unified_reversed"
  by code_simp

text \<open>
  C3 as stated fails: when the catalog lists the three scenes newest first, the time
  axis of the unified dataset is in that order, not ascending.
\<close>

theorem unify_time_axis_unsorted:
  "make_google_archive compact_date (rev (butlast catalog_titles)) [''B4'', ''B5'']
     = Inr (take_rows [2, 1, 0] archive_frame)
   \<and> time_coord (projr (unify misaligned_open to_dataset xr_merge xr_concat
                          (take_rows [2, 1, 0] archive_frame)))
       = [20130608, 20130523, 20130421]
   \<and> \<not> sorted [20130608, 20130523, 20130421 :: int]"
proof -
  have "make_google_archive compact_date (rev (butlast catalog_titles)) [''B4'', ''B5'']
          = Inr (take_rows [2, 1, 0] archive_frame)"
    by (simp add: catalog_titles_def make_google_archive_def py_index_def
        compact_date_20130421 compact_date_20130523 compact_date_20130608 add_bands_def
        base_url_def band_url_def archive_prefix_def slice_1_3_def slice_last2_def
        archive_frame_def take_rows_def)
  moreover have "time_coord (projr (unify misaligned_open to_dataset xr_merge xr_concat
                          (take_rows [2, 1, 0] archive_frame)))
       = [20130608, 20130523, 20130421]"
    unfolding unify_reversed_frame by (simp add: unified_reversed_def)
  moreover have "\<not> sorted [20130608, 20130523, 20130421 :: int]" by simp
  ultimately show ?thesis by (intro conjI)
qed

theorem unify_follows_input_order_witness:
  "time_coord unified_reversed = map (\<lambda>i. time_coord unified_frame ! i) [2, 1, 0]
   \<and> mset (time_coord unified_reversed) = mset (time_coord unified_frame)
   \<and> x_coord unified_reversed = x_coord unified_frame
   \<and> map_of (data_vars unified_reversed) ''B5''
       = map_option (\<lambda>cube. map (\<lambda>i. cube ! i) [2, 1, 0]) (map_of (data_vars unified_frame) ''B5'')"
proof -
  have wf: "wf_dataframe archive_frame"
    by (simp add: wf_dataframe_def nrows_def archive_frame_def)
  have perm: "mset [2, 1, 0] = mset [0..<nrows archive_frame]"
    by (simp add: nrows_def archive_frame_def upt_rec)
  from unify_follows_input_order [OF wf perm unify_archive_frame unify_reversed_frame]
  show ?thesis by blast
qed

section \<open>Stage B is an outer join\<close>

lemma index_of_None: "index_of xs a = None \<longleftrightarrow> a \<notin> set xs"
  by (induction xs) auto

lemma index_of_Some: "index_of xs a = Some i \<Longrightarrow> i < length xs \<and> xs ! i = a"
  by (induction xs arbitrary: i) (auto split: if_splits)

lemma index_of_nth: "distinct xs \<Longrightarrow> i < length xs \<Longrightarrow> index_of xs (xs ! i) = Some i"
proof (induction xs arbitrary: i)
  case Nil
  then show ?case by simp
next
  case (Cons x xs)
  show ?case
  proof (cases i)
    case 0
    then show ?thesis by simp
  next
    case (Suc n)
    with Cons.prems have "xs ! n \<noteq> x" "index_of xs (xs ! n) = Some n"
      using Cons.IH [of n] by auto
    with Suc show ?thesis by simp
  qed
qed

lemma reindex_list_nth:
  assumes "distinct old" "length vs = length old" "j < length new"
  shows "reindex_list old new fill vs ! j
           = (case index_of old (new ! j) of Some i \<Rightarrow> vs ! i | None \<Rightarrow> fill)"
proof (cases "old = new")
  case True
  with assms have "index_of old (new ! j) = Some j" by (simp add: index_of_nth)
  with True show ?thesis by (simp add: reindex_list_def)
next
  case False
  with assms(3) show ?thesis by (simp add: reindex_list_def)
qed

lemma outer_join_shared:
  assumes "idxs \<noteq> []" "\<forall>j \<in> set idxs. j = a"
  shows "outer_join idxs = a"
proof -
  have "hd idxs \<in> set idxs" using assms(1) by (rule hd_in_set)
  with assms(2) have h: "hd idxs = a" by (rule bspec)
  have "outer_join idxs = (if \<forall>j \<in> set idxs. j = hd idxs then hd idxs
                             else sort (remdups (concat idxs)))"
    using assms(1) by (simp only: outer_join_cases if_False)
  also have "\<dots> = hd idxs" unfolding h using assms(2) by (rule if_P)
  finally show ?thesis by (simp only: h)
qed

lemma outer_join_differ:
  assumes "idxs \<noteq> []" "\<exists>j \<in> set idxs. j \<noteq> hd idxs"
  shows "sorted (outer_join idxs) \<and> distinct (outer_join idxs)"
proof -
  from assms(2) have no: "\<not> (\<forall>j \<in> set idxs. j = hd idxs)" by blast
  have "outer_join idxs = (if \<forall>j \<in> set idxs. j = hd idxs then hd idxs
                             else sort (remdups (concat idxs)))"
    using assms(1) by (simp only: outer_join_cases if_False)
  also have "\<dots> = sort (remdups (concat idxs))" using no by (rule if_not_P)
  finally have "outer_join idxs = sort (remdups (concat idxs))" .
  then show ?thesis by simp
qed

lemma axes_shared:
  assumes "dss \<noteq> []" "\<forall>ds \<in> set dss. f ds = a"
  shows "outer_join (map f dss) = a"
proof (rule outer_join_shared)
  show "map f dss \<noteq> []" using assms(1) by simp
  show "\<forall>j \<in> set (map f dss). j = a"
  proof
    fix j assume "j \<in> set (map f dss)"
    then obtain ds where "ds \<in> set dss" "j = f ds" by auto
    with assms(2) show "j = a" by blast
  qed
qed

lemma axes_differ:
  assumes "dss \<noteq> []" "\<exists>ds \<in> set dss. f ds \<noteq> f (hd dss)"
  shows "sorted (outer_join (map f dss)) \<and> distinct (outer_join (map f dss))"
proof (rule outer_join_differ)
  show ne: "map f dss \<noteq> []" using assms(1) by simp
  from assms(2) obtain ds where ds: "ds \<in> set dss" "f ds \<noteq> f (hd dss)" by blast
  have "hd (map f dss) = f (hd dss)" using assms(1) by (rule hd_map)
  with ds have "f ds \<in> set (map f dss)" "f ds \<noteq> hd (map f dss)" by simp_all
  then show "\<exists>j \<in> set (map f dss). j \<noteq> hd (map f dss)" by blast
qed

lemma map_of_mapped_values:
  "map_of (map (\<lambda>(n, g). (n, f g)) vars) name = map_option f (map_of vars name)"
  by (induction vars) auto

lemma wf_item_var:
  assumes "wf_item ds" "map_of (item_vars ds) name = Some g"
  shows "length g = length (item_y ds)" "\<forall>r \<in> set g. length r = length (item_x ds)"
proof -
  from assms(2) have "(name, g) \<in> set (item_vars ds)" by (rule map_of_SomeD)
  with assms(1) have "length g = length (item_y ds)
                       \<and> list_all (\<lambda>r. length r = length (item_x ds)) g"
    by (auto simp: wf_item_def list_all_iff)
  then show "length g = length (item_y ds)" "\<forall>r \<in> set g. length r = length (item_x ds)"
    by (simp_all add: list_all_iff)
qed

lemma reindex_item_cell:
  assumes wf: "wf_item ds" and g: "map_of (item_vars ds) name = Some g"
    and j: "j < length ys" and i: "i < length xs"
  shows "\<exists>h. map_of (item_vars (reindex_item ys xs ds)) name = Some h
           \<and> h ! j ! i =
               (case (index_of (item_y ds) (ys ! j), index_of (item_x ds) (xs ! i)) of
                  (Some j', Some i') \<Rightarrow> g ! j' ! i'
                | _ \<Rightarrow> None)"
proof -
  let ?rows = "map (reindex_list (item_x ds) xs None) g"
  let ?h = "reindex_list (item_y ds) ys (replicate (length xs) None) ?rows"
  have dy: "distinct (item_y ds)" and dx: "distinct (item_x ds)"
    using wf by (simp_all add: wf_item_def)
  note shape = wf_item_var [OF wf g]
  have h: "map_of (item_vars (reindex_item ys xs ds)) name = Some ?h"
    by (simp add: reindex_item_def map_of_mapped_values g)
  have row: "?h ! j = (case index_of (item_y ds) (ys ! j) of
                         Some j' \<Rightarrow> ?rows ! j' | None \<Rightarrow> replicate (length xs) None)"
    using dy shape(1) j by (simp add: reindex_list_nth)
  have cell: "?h ! j ! i =
               (case (index_of (item_y ds) (ys ! j), index_of (item_x ds) (xs ! i)) of
                  (Some j', Some i') \<Rightarrow> g ! j' ! i'
                | _ \<Rightarrow> None)"
  proof (cases "index_of (item_y ds) (ys ! j)")
    case None
    with row i show ?thesis by simp
  next
    case (Some j')
    from index_of_Some [OF Some] shape(1) have j': "j' < length g" by simp
    then have "g ! j' \<in> set g" by simp
    with shape(2) have len: "length (g ! j') = length (item_x ds)" by blast
    from row Some j' have "?h ! j = reindex_list (item_x ds) xs None (g ! j')" by simp
    with Some show ?thesis
      using reindex_list_nth [OF dx len i, of None] by (simp split: option.splits)
  qed
  from h cell show ?thesis by blast
qed


text \<open>
  C1, as the code has it. When Stage B succeeds on well-formed per-item datasets, each
  spatial axis of the unified dataset holds exactly the labels of all items' axes. When
  all items have the same axis, the unified axis is that axis as it stands; when the
  items' axes differ, it is sorted ascending, without repetition. For every item \<open>k\<close>
  and band, the cell of time step \<open>k\<close> at a pair of labels that the item has holds the
  item's value at those labels, and every other cell holds NaN: an outer join.
\<close>

theorem unify_outer_join:
  assumes U: "unify open_rasterio to_ds merge xr_concat df = Inr U"
    and dss: "dss = fst (load_acquisitions open_rasterio to_ds merge (iterrows df))"
    and wf: "list_all wf_item dss"
    and k: "k < length dss"
    and g: "map_of (item_vars (dss ! k)) name = Some g"
  shows "set (y_coord U) = (\<Union>ds \<in> set dss. set (item_y ds))
         \<and> set (x_coord U) = (\<Union>ds \<in> set dss. set (item_x ds))
         \<and> (\<forall>a. (\<forall>ds \<in> set dss. item_y ds = a) \<longrightarrow> y_coord U = a)
         \<and> ((\<exists>ds \<in> set dss. item_y ds \<noteq> item_y (hd dss))
                \<longrightarrow> sorted (y_coord U) \<and> distinct (y_coord U))
         \<and> (\<forall>a. (\<forall>ds \<in> set dss. item_x ds = a) \<longrightarrow> x_coord U = a)
         \<and> ((\<exists>ds \<in> set dss. item_x ds \<noteq> item_x (hd dss))
                \<longrightarrow> sorted (x_coord U) \<and> distinct (x_coord U))
         \<and> (\<exists>cube. map_of (data_vars U) name = Some cube \<and> length cube = length dss
               \<and> (\<forall>j < length (y_coord U). \<forall>i < length (x_coord U).
                     cube ! k ! j ! i =
                       (case (index_of (item_y (dss ! k)) (y_coord U ! j),
                              index_of (item_x (dss ! k)) (x_coord U ! i)) of
                          (Some j', Some i') \<Rightarrow> g ! j' ! i'
                        | _ \<Rightarrow> None)))"
proof -
  let ?ys = "outer_join (map item_y dss)" and ?xs = "outer_join (map item_x dss)"
  let ?al = "map (reindex_item ?ys ?xs) dss"
  let ?names = "map fst (item_vars (hd dss))"
  let ?cube = "map (\<lambda>ds. the (map_of (item_vars ds) name)) ?al"
  from U obtain dates where c: "xr_concat dss dates = Inr U"
    unfolding dss by (rule unify_Inr)
  note f = xr_concat_Inr [OF c]
  from f have ne: "dss \<noteq> []" and y: "y_coord U = ?ys" and x: "x_coord U = ?xs" by simp_all
  from f obtain al where al: "align dss = Inr al"
    and st: "stack_vars ?names al = Inr (data_vars U)" by blast
  from align_Inr [OF al] have al_eq: "al = ?al" .
  have sy: "set (y_coord U) = (\<Union>ds \<in> set dss. set (item_y ds))"
    and sx: "set (x_coord U) = (\<Union>ds \<in> set dss. set (item_x ds))"
    by (simp_all add: y x set_outer_join)
  have cy: "y_coord U = a" if "\<forall>ds \<in> set dss. item_y ds = a" for a
    unfolding y using ne that by (rule axes_shared)
  have cx: "x_coord U = a" if "\<forall>ds \<in> set dss. item_x ds = a" for a
    unfolding x using ne that by (rule axes_shared)
  have oy: "sorted (y_coord U) \<and> distinct (y_coord U)"
    if "\<exists>ds \<in> set dss. item_y ds \<noteq> item_y (hd dss)"
    unfolding y using ne that by (rule axes_differ)
  have ox: "sorted (x_coord U) \<and> distinct (x_coord U)"
    if "\<exists>ds \<in> set dss. item_x ds \<noteq> item_x (hd dss)"
    unfolding x using ne that by (rule axes_differ)
  from k have mem: "dss ! k \<in> set dss" by simp
  with wf have wfk: "wf_item (dss ! k)" by (simp add: list_all_iff)
  from g have "(name, g) \<in> set (item_vars (dss ! k))" by (rule map_of_SomeD)
  then have "name \<in> set (map fst (item_vars (dss ! k)))" by force
  with f mem have name: "name \<in> set ?names" by blast
  from stack_vars_Inr [OF st] al_eq
  have "data_vars U = map (\<lambda>n. (n, map (\<lambda>ds. the (map_of (item_vars ds) n)) ?al)) ?names"
    by simp
  then have cube: "map_of (data_vars U) name = Some ?cube"
    using name by (simp only: map_of_tabulate if_True)
  have len: "length ?cube = length dss" by simp
  have cell: "?cube ! k ! j ! i =
                (case (index_of (item_y (dss ! k)) (y_coord U ! j),
                       index_of (item_x (dss ! k)) (x_coord U ! i)) of
                   (Some j', Some i') \<Rightarrow> g ! j' ! i'
                 | _ \<Rightarrow> None)"
    if "j < length (y_coord U)" "i < length (x_coord U)" for j i
  proof -
    from that have "j < length ?ys" "i < length ?xs" by (simp_all add: y x)
    from reindex_item_cell [OF wfk g this] k show ?thesis by (auto simp: y x)
  qed
  have f3: "\<forall>a. (\<forall>ds \<in> set dss. item_y ds = a) \<longrightarrow> y_coord U = a"
    using cy by (intro allI impI)
  have f4: "(\<exists>ds \<in> set dss. item_y ds \<noteq> item_y (hd dss))
              \<longrightarrow> sorted (y_coord U) \<and> distinct (y_coord U)"
    using oy by (intro impI)
  have f5: "\<forall>a. (\<forall>ds \<in> set dss. item_x ds = a) \<longrightarrow> x_coord U = a"
    using cx by (intro allI impI)
  have f6: "(\<exists>ds \<in> set dss. item_x ds \<noteq> item_x (hd dss))
              \<longrightarrow> sorted (x_coord U) \<and> distinct (x_coord U)"
    using ox by (intro impI)
  have f7: "\<exists>cube. map_of (data_vars U) name = Some cube \<and> length cube = length dss
               \<and> (\<forall>j < length (y_coord U). \<forall>i < length (x_coord U).
                     cube ! k ! j ! i =
                       (case (index_of (item_y (dss ! k)) (y_coord U ! j),
                              index_of (item_x (dss ! k)) (x_coord U ! i)) of
                          (Some j', Some i') \<Rightarrow> g ! j' ! i'
                        | _ \<Rightarrow> None))"
    using cube len cell by blast
  show ?thesis
    by (intro conjI) (rule sy, rule sx, rule f3, rule f4, rule f5, rule f6, rule f7)
qed

lemma loaded_archive_frame:
  "fst (load_acquisitions misaligned_open to_dataset xr_merge (iterrows archive_frame))
     = [\<lparr>item_y = [2, 1], item_x = [10, 20, 30],
          item_vars = [(''B4'', [[Some 1, Some 2, None], [Some 3, Some 4, None]]),
                       (''B5'', [[None, Some 5, Some 6], [None, Some 7, Some 8]])]\<rparr>,
        \<lparr>item_y = [2, 1], item_x = [10, 20],
          item_vars = [(''B4'', [[Some 1, Some 2], [Some 3, Some 4]]),
                       (''B5'', [[Some 1, Some 2], [Some 3, Some 4]])]\<rparr>,
        \<lparr>item_y = [2, 1], item_x = [10, 20],
          item_vars = [(''B4'', [[Some 1, Some 2], [Some 3, Some 4]]),
                       (''B5'', [[Some 1, Some 2], [Some 3, Some 4]])]\<rparr>]"
  by code_simp

text \<open>
  C1 as stated fails in the order of the axis: every scene of \<open>archive_frame\<close> has the
  north-up \<open>y\<close> axis \<open>[2, 1]\<close>, and the unified dataset keeps it, descending.
\<close>

theorem unify_axis_unsorted:
  "ras_y scene_raster = [2, 1] \<and> ras_y shifted_raster = [2, 1]
   \<and> y_coord (projr (unify misaligned_open to_dataset xr_merge xr_concat archive_frame)) = [2, 1]
   \<and> \<not> sorted [2, 1 :: int]"
  unfolding unify_archive_frame
  by (simp add: unified_frame_def scene_raster_def shifted_raster_def)

theorem unify_outer_join_witness:
  "set (x_coord unified_frame) = {10, 20, 30}
   \<and> sorted (x_coord unified_frame)
   \<and> y_coord unified_frame = [2, 1]
   \<and> the (map_of (data_vars unified_frame) ''B5'') ! 1 ! 0 ! 0 = Some 1
   \<and> the (map_of (data_vars unified_frame) ''B5'') ! 1 ! 0 ! 2 = None"
proof -
  let ?dss = "[\<lparr>item_y = [2, 1], item_x = [10, 20, 30],
          item_vars = [(''B4'', [[Some 1, Some 2, None], [Some 3, Some 4, None]]),
                       (''B5'', [[None, Some 5, Some 6], [None, Some 7, Some 8]])]\<rparr>,
        \<lparr>item_y = [2, 1], item_x = [10, 20],
          item_vars = [(''B4'', [[Some 1, Some 2], [Some 3, Some 4]]),
                       (''B5'', [[Some 1, Some 2], [Some 3, Some 4]])]\<rparr>,
        \<lparr>item_y = [2, 1], item_x = [10, 20],
          item_vars = [(''B4'', [[Some 1, Some 2], [Some 3, Some 4]]),
                       (''B5'', [[Some 1, Some 2], [Some 3, Some 4]])]\<rparr>] :: (int, int) item_dataset list"
  have wf: "list_all wf_item ?dss" by (simp add: wf_item_def)
  have k: "1 < length ?dss" by simp
  have g: "map_of (item_vars (?dss ! 1)) ''B5'' = Some [[Some 1, Some 2], [Some 3, Some 4]]"
    by simp
  note t = unify_outer_join [OF unify_archive_frame loaded_archive_frame [symmetric] wf k g]
  note rest = t [THEN conjunct2, THEN conjunct2]
  from t [THEN conjunct2, THEN conjunct1]
  have sx: "set (x_coord unified_frame) = {10, 20, 30}" by auto
  from rest [THEN conjunct1]
  have "(\<forall>ds \<in> set ?dss. item_y ds = [2, 1]) \<longrightarrow> y_coord unified_frame = [2, 1]"
    by (rule spec)
  then have yc: "y_coord unified_frame = [2, 1]" by simp
  from rest [THEN conjunct2, THEN conjunct2, THEN conjunct2, THEN conjunct1]
  have so: "sorted (x_coord unified_frame)" by simp
  from rest [THEN conjunct2, THEN conjunct2, THEN conjunct2, THEN conjunct2]
  obtain cube where cube: "map_of (data_vars unified_frame) ''B5'' = Some cube"
    and cell: "\<forall>j < length (y_coord unified_frame). \<forall>i < length (x_coord unified_frame).
                 cube ! 1 ! j ! i =
                   (case (index_of (item_y (?dss ! 1)) (y_coord unified_frame ! j),
                          index_of (item_x (?dss ! 1)) (x_coord unified_frame ! i)) of
                      (Some j', Some i') \<Rightarrow> [[Some 1, Some 2], [Some 3, Some 4]] ! j' ! i'
                    | _ \<Rightarrow> None)"
    by (elim exE conjE)
  have c0: "cube ! 1 ! 0 ! 0 = Some 1"
    using cell [rule_format, of 0 0] by (simp add: unified_frame_def)
  have c2: "cube ! 1 ! 0 ! 2 = None"
    using cell [rule_format, of 0 2] by (simp add: unified_frame_def)
  from sx so yc cube c0 c2 show ?thesis by simp
qed

section \<open>The pipeline drops the last catalogued item\<close>











end
